theory Spec2Isabelle
  imports Complex_Main "HOL-Library.Monad_Syntax"
begin

section \<open>Common data model\<close>

text \<open>
  The C++ type \<open>double\<close> is modelled by the reals: the development is about which
  quantities are computed, compared and stored, not about rounding. Particle IDs, event
  counts and list indices are natural numbers. An exception is a value carrying the text
  that \<open>what()\<close> returns (every throw of the code is an \<open>M_throw()\<close> or one of the
  standard library, so every exception is a \<open>std::exception\<close>); a function that may throw
  returns \<open>exception + 'a\<close> with \<open>Inl\<close> for the throw.
\<close>

type_synonym Vector = "real \<times> real \<times> real"

definition NDIM :: nat where
  "NDIM = 3"

fun vnth :: "Vector \<Rightarrow> nat \<Rightarrow> real" where
  "vnth (x, y, z) i = (if i = 0 then x else if i = 1 then y else z)"

definition vscale :: "real \<Rightarrow> Vector \<Rightarrow> Vector" where
  "vscale a v = (case v of (x, y, z) \<Rightarrow> (x * a, y * a, z * a))"

definition vdiv :: "Vector \<Rightarrow> real \<Rightarrow> Vector" where
  "vdiv v a = (case v of (x, y, z) \<Rightarrow> (x / a, y / a, z / a))"

definition vnrm2 :: "Vector \<Rightarrow> real" where
  "vnrm2 v = (case v of (x, y, z) \<Rightarrow> x * x + y * y + z * z)"

text \<open>
  \<open>M_throw() << a << b << ...\<close> builds the text of an exception by streaming strings,
  integers and doubles into it. The text is kept as the sequence of streamed items.
\<close>

datatype item = Str string | Num nat | Dbl real

datatype exception = Exception (what: "item list")

record Particle =
  getID :: nat
  getPosition :: Vector
  getVelocity :: Vector

text \<open>
  The event types that the sources and the spec name; the enumeration itself is declared in
  a header that is not among the source files.
\<close>

datatype EEventType =
  NONE | CELL | GLOBAL | INTERACTION | SYSTEM | LOCAL
  | CORE | WELL_IN | WELL_OUT | BOUNCE | VIRTUAL_PARABOLA

text \<open>
  An event time is a \<open>double\<close> that may be the infinite value \<open>HUGE_VAL\<close>, the time
  of an event that never happens.
\<close>

datatype etime = Finite real | HUGE_VAL

record IntEvent =
  ev_particle1 :: nat
  ev_particle2 :: nat
  ev_dt :: etime
  ev_type :: EEventType

section \<open>The interaction registry\<close>

text \<open>
  An interaction is seen through the virtual interface that \<open>simulation.cpp\<close> calls:
  the selector \<open>isInteraction\<close> of its 2-range, \<open>getEvent\<close>, \<open>maxIntDist\<close> and
  \<open>getExcludedVolume\<close>.
\<close>

record Interaction =
  intName :: string
  isInteraction :: "Particle \<Rightarrow> Particle \<Rightarrow> bool"
  int_getEvent :: "Particle \<Rightarrow> Particle \<Rightarrow> IntEvent"
  maxIntDist :: real
  getExcludedVolume :: "nat \<Rightarrow> real"

text \<open>\<open>Simulation::getInteraction\<close>: the range-for loop returns at the first match.\<close>

fun getInteraction :: "Interaction list \<Rightarrow> Particle \<Rightarrow> Particle \<Rightarrow> exception + Interaction" where
  "getInteraction [] p1 p2 =
     Inl (Exception [Str ''Could not find an Interaction between particles '', Num (getID p1),
        Str '' and '', Num (getID p2),
        Str ''. All particle pairings must have a corresponding Interaction defined.''])"
| "getInteraction (ptr # rest) p1 p2 =
     (if isInteraction ptr p1 p2 then Inr ptr else getInteraction rest p1 p2)"

text \<open>\<open>Simulation::getEvent\<close>: the same loop, returning the event of the first match.\<close>

fun getEvent :: "Interaction list \<Rightarrow> Particle \<Rightarrow> Particle \<Rightarrow> exception + IntEvent" where
  "getEvent [] p1 p2 = Inl (Exception [Str ''Could not find the right interaction to test for''])"
| "getEvent (ptr # rest) p1 p2 =
     (if isInteraction ptr p1 p2 then Inr (int_getEvent ptr p1 p2) else getEvent rest p1 p2)"

section \<open>The simulation container\<close>

datatype ESimulationStatus =
  START | SPECIES_INIT | DYNAMICS_INIT | INTERACTION_INIT | LOCAL_INIT | GLOBAL_INIT
  | SYSTEM_INIT | ENSEMBLE_INIT | SCHEDULER_INIT | OUTPUTPLUGIN_INIT | INITIALISED

text \<open>The position of a status in the enumeration, for the comparisons \<open><\<close> and \<open>>=\<close>.\<close>

fun status_rank :: "ESimulationStatus \<Rightarrow> nat" where
  "status_rank START = 0"
| "status_rank SPECIES_INIT = 1"
| "status_rank DYNAMICS_INIT = 2"
| "status_rank INTERACTION_INIT = 3"
| "status_rank LOCAL_INIT = 4"
| "status_rank GLOBAL_INIT = 5"
| "status_rank SYSTEM_INIT = 6"
| "status_rank ENSEMBLE_INIT = 7"
| "status_rank SCHEDULER_INIT = 8"
| "status_rank OUTPUTPLUGIN_INIT = 9"
| "status_rank INITIALISED = 10"

text \<open>
  The boundary condition classes are not among the source files; what the container asks
  of \<open>BCs\<close> is whether it casts to \<open>BCPeriodic\<close>.
\<close>

datatype BoundaryCondition = BCNone | BCPeriodic | BCLeesEdwards

record Species =
  spName :: string
  isSpecies :: "Particle \<Rightarrow> bool"
  getCount :: nat
  getMass :: "nat \<Rightarrow> real"

text \<open>
  A system event, built by its constructor from a time and a name:
  \<open>SystHalt(Sim, dt, name)\<close> and \<open>SysTicker(Sim, period, name)\<close>.
\<close>

datatype System = SystHalt (sys_dt: real) (sysName: string) | SysTicker (sys_dt: real) (sysName: string)

record Units =
  unitLength :: real
  unitTime :: real
  unitMass :: real

definition unitArea :: "Units \<Rightarrow> real" where
  "unitArea u = unitLength u * unitLength u"

definition unitVolume :: "Units \<Rightarrow> real" where
  "unitVolume u = unitLength u * unitLength u * unitLength u"

text \<open>The ensemble holds the three values that \<open>getEnsembleVals()\<close> returns.\<close>

record Ensemble =
  getEnsembleVals :: Vector

text \<open>
  An event held by the scheduler's sorter: its time, its type and the particle it is
  filed under.
\<close>

record SchedEvent =
  se_time :: real
  se_type :: EEventType
  se_particle :: nat

record Scheduler =
  sorter :: "SchedEvent list"

text \<open>
  The container. The dynamics object and the output plugins are kept abstract
  (\<open>'dyn\<close>, \<open>'op\<close>): their classes are not among the source files, and they are
  reached only through the operations passed to the functions below.
\<close>

record ('dyn, 'op) Simulation =
  systemTime :: real
  eventCount :: nat
  endEventCount :: nat
  eventPrintInterval :: nat
  nextPrintEvent :: nat
  nextPrint :: nat
  primaryCellSize :: Vector
  lastRunMFT :: real
  status :: ESimulationStatus
  particles :: "Particle list"
  species :: "Species list"
  interactions :: "Interaction list"
  BCs :: BoundaryCondition
  systems :: "System list"
  ensemble :: Ensemble
  ptrScheduler :: "Scheduler option"
  outputPlugins :: "'op list"
  units :: Units
  dynamics :: 'dyn

definition N :: "('dyn, 'op) Simulation \<Rightarrow> nat" where
  "N s = length (particles s)"

text \<open>\<open>Simulation::getLongestInteraction\<close>: a running maximum that starts at \<open>0.0\<close>.\<close>

fun longest_from :: "real \<Rightarrow> Interaction list \<Rightarrow> real" where
  "longest_from maxval [] = maxval"
| "longest_from maxval (ptr # rest) =
     longest_from (if maxIntDist ptr > maxval then maxIntDist ptr else maxval) rest"

definition getLongestInteraction :: "('dyn, 'op) Simulation \<Rightarrow> real" where
  "getLongestInteraction s = longest_from 0 (interactions s)"

subsection \<open>Initialisation up to the interaction phase\<close>

text \<open>
  The operations of the collaborators that \<open>Simulation::initialise\<close> calls on its way to
  \<open>status = INTERACTION_INIT\<close>: \<open>Species::initialise\<close>, \<open>Dynamics::initialise\<close> and
  \<open>Interaction::initialise(ID)\<close>. Each may throw.
\<close>

record ('dyn, 'op) InitOps =
  speciesInitialise :: "Species \<Rightarrow> exception + Species"
  dynamicsInitialise :: "('dyn, 'op) Simulation \<Rightarrow> exception + ('dyn, 'op) Simulation"
  interactionInitialise :: "nat \<Rightarrow> Interaction \<Rightarrow> exception + Interaction"

text \<open>A loop that calls \<open>f\<close> on every element and stops at the first throw.\<close>

fun for_each :: "('a \<Rightarrow> exception + 'a) \<Rightarrow> 'a list \<Rightarrow> exception + 'a list" where
  "for_each f [] = Inr []"
| "for_each f (x # xs) =
     (case f x of Inl e \<Rightarrow> Inl e
      | Inr y \<Rightarrow> (case for_each f xs of Inl e \<Rightarrow> Inl e | Inr ys \<Rightarrow> Inr (y # ys)))"

text \<open>The same with the running index of \<open>ptr->initialise(ID++)\<close>.\<close>

fun for_each_ID :: "(nat \<Rightarrow> 'a \<Rightarrow> exception + 'a) \<Rightarrow> nat \<Rightarrow> 'a list \<Rightarrow> exception + 'a list" where
  "for_each_ID f ID [] = Inr []"
| "for_each_ID f ID (x # xs) =
     (case f ID x of Inl e \<Rightarrow> Inl e
      | Inr y \<Rightarrow> (case for_each_ID f (Suc ID) xs of Inl e \<Rightarrow> Inl e | Inr ys \<Rightarrow> Inr (y # ys)))"

text \<open>
  The inner loop over the species of one particle: \<open>count\<close> is incremented at the first
  species that holds the particle, and the loop is left.
\<close>

fun species_count :: "Species list \<Rightarrow> Particle \<Rightarrow> nat" where
  "species_count [] part = 0"
| "species_count (ptr # rest) part = (if isSpecies ptr part then 1 else species_count rest part)"

fun check_species :: "Species list \<Rightarrow> Particle list \<Rightarrow> exception + unit" where
  "check_species sp [] = Inr ()"
| "check_species sp (part # rest) =
     (if species_count sp part < 1 then
        Inl (Exception [Str ''Particle ID='', Num (getID part), Str '' has no species''])
      else if species_count sp part > 1 then
        Inl (Exception [Str ''Particle ID='', Num (getID part), Str '' has more than one species''])
      else check_species sp rest)"

text \<open>
  The species counts against the number of particles. The discrepancy is printed as the
  unsigned difference, which wraps.
\<close>

definition check_species_total :: "Species list \<Rightarrow> nat \<Rightarrow> exception + unit" where
  "check_species_total sp n =
     (let tot = sum_list (map getCount sp);
          discrepancy = nat ((int tot - int n) mod 2 ^ 64) in
      if tot < n then
        Inl (Exception [Str ''The particle count according to the species definition is too low'',
               Str (CHR 0x0A # ''discrepancy = ''), Num discrepancy, Str (CHR 0x0A # ''N = ''), Num n])
      else if tot > n then
        Inl (Exception [Str ''The particle count according to the species definition is too high'',
               Str (CHR 0x0A # ''discrepancy = ''), Num discrepancy, Str (CHR 0x0A # ''N = ''), Num n])
      else Inr ())"

text \<open>Every particle needs an interaction with itself.\<close>

fun check_self_interactions :: "Interaction list \<Rightarrow> Particle list \<Rightarrow> exception + unit" where
  "check_self_interactions ints [] = Inr ()"
| "check_self_interactions ints (particle # rest) =
     (case getInteraction ints particle particle of
        Inl _ \<Rightarrow> Inl (Exception [Str ''The particle (ID='', Num (getID particle),
                   Str '') does not have a self Interaction defined.''])
      | Inr _ \<Rightarrow> check_self_interactions ints rest)"

text \<open>Every pairing \<open>ID1 \<le> ID2 < N\<close> needs an interaction, in the order of the two loops.\<close>

definition check_pair_interactions :: "Interaction list \<Rightarrow> Particle list \<Rightarrow> exception + unit" where
  "check_pair_interactions ints ps =
     (case find (\<lambda>(ID1, ID2). isl (getInteraction ints (ps ! ID1) (ps ! ID2)))
             (concat (map (\<lambda>ID1. map (\<lambda>ID2. (ID1, ID2)) [ID1..<length ps]) [0..<length ps])) of
        Some (ID1, ID2) \<Rightarrow>
          Inl (Exception [Str ''There is no Interaction defined between particle ID='', Num ID1,
                 Str '' and particle ID='', Num ID2,
                 Str ''. Each particle pairing must have an Interaction defined''])
      | None \<Rightarrow> Inr ())"

text \<open>
  The check of the primary image under periodic boundary conditions: the first dimension
  \<open>i\<close> with \<open>primaryCellSize[i] <= 2.0 * max_interaction_dist\<close> throws.
\<close>

definition check_primary_image :: "('dyn, 'op) Simulation \<Rightarrow> exception + unit" where
  "check_primary_image s =
     (if BCs s = BCPeriodic then
        (let max_interaction_dist = getLongestInteraction s in
         case find (\<lambda>i. vnth (primaryCellSize s) i \<le> 2 * max_interaction_dist) [0..<NDIM] of
           Some i \<Rightarrow>
             Inl (Exception [Str ''When using periodic boundary conditions, the size of the primary image must be at least 2x the maximum interaction distance in all dimensions, otherwise one particle can interact with multiple periodic images of another particle.'',
                    Str (CHR 0x0A # ''primaryCellSize[''), Num i, Str ''] = '', Dbl (vnth (primaryCellSize s) i),
                    Str (CHR 0x0A # ''Longest interaction distance = ''), Dbl max_interaction_dist])
         | None \<Rightarrow> Inr ())
      else Inr ())"

text \<open>
  \<open>Simulation::initialise\<close> from its entry to \<open>status = SPECIES_INIT\<close>, from there to
  \<open>status = DYNAMICS_INIT\<close>, and from there to \<open>status = INTERACTION_INIT\<close>.
\<close>

definition init_species ::
  "('dyn, 'op) InitOps \<Rightarrow> ('dyn, 'op) Simulation \<Rightarrow> exception + ('dyn, 'op) Simulation" where
  "init_species ops s =
     (if status s \<noteq> START then Inl (Exception [Str ''Sim initialised at wrong time''])
      else case for_each (speciesInitialise ops) (species s) of
        Inl e \<Rightarrow> Inl e
      | Inr sp \<Rightarrow>
         (case check_species sp (particles s) of
            Inl e \<Rightarrow> Inl e
          | Inr _ \<Rightarrow>
             (case check_species_total sp (N s) of
                Inl e \<Rightarrow> Inl e
              | Inr _ \<Rightarrow> Inr (s\<lparr>species := sp, status := SPECIES_INIT\<rparr>))))"

definition init_dynamics ::
  "('dyn, 'op) InitOps \<Rightarrow> ('dyn, 'op) Simulation \<Rightarrow> exception + ('dyn, 'op) Simulation" where
  "init_dynamics ops s =
     (case check_self_interactions (interactions s) (particles s) of
        Inl e \<Rightarrow> Inl e
      | Inr _ \<Rightarrow>
         (case dynamicsInitialise ops s of
            Inl e \<Rightarrow> Inl e
          | Inr s' \<Rightarrow> Inr (s'\<lparr>status := DYNAMICS_INIT\<rparr>)))"

definition init_interactions ::
  "('dyn, 'op) InitOps \<Rightarrow> ('dyn, 'op) Simulation \<Rightarrow> exception + ('dyn, 'op) Simulation" where
  "init_interactions ops s =
     (case check_pair_interactions (interactions s) (particles s) of
        Inl e \<Rightarrow> Inl e
      | Inr _ \<Rightarrow>
         (case for_each_ID (interactionInitialise ops) 0 (interactions s) of
            Inl e \<Rightarrow> Inl e
          | Inr ints \<Rightarrow>
             (let s' = s\<lparr>interactions := ints\<rparr> in
              case check_primary_image s' of
                Inl e \<Rightarrow> Inl e
              | Inr _ \<Rightarrow> Inr (s'\<lparr>status := INTERACTION_INIT\<rparr>))))"

definition initialise_to_INTERACTION_INIT ::
  "('dyn, 'op) InitOps \<Rightarrow> ('dyn, 'op) Simulation \<Rightarrow> exception + ('dyn, 'op) Simulation" where
  "initialise_to_INTERACTION_INIT ops s =
     (case init_species ops s of
        Inl e \<Rightarrow> Inl e
      | Inr s1 \<Rightarrow>
         (case init_dynamics ops s1 of
            Inl e \<Rightarrow> Inl e
          | Inr s2 \<Rightarrow> init_interactions ops s2))"

subsection \<open>The event loop\<close>

text \<open>\<open>Simulation::simShutdown\<close>.\<close>

definition simShutdown :: "('dyn, 'op) Simulation \<Rightarrow> ('dyn, 'op) Simulation" where
  "simShutdown s = s\<lparr>nextPrintEvent := eventCount s, endEventCount := eventCount s\<rparr>"

text \<open>
  The collaborators of \<open>Simulation::runSimulationStep\<close>: \<open>Scheduler::runNextEvent\<close>, which
  works on the whole simulation, and \<open>OutputPlugin::periodicOutput\<close>. A throw of
  \<open>runNextEvent\<close> comes with the simulation as it stands at the throw.
\<close>

record ('dyn, 'op) StepOps =
  runNextEvent ::
    "('dyn, 'op) Simulation \<Rightarrow> (exception \<times> ('dyn, 'op) Simulation) + ('dyn, 'op) Simulation"
  periodicOutput :: "'op \<Rightarrow> exception + 'op"

text \<open>
  The loop over the output plugins: the plugins as they stand when the loop ends, and the
  exception that ended it if one did.
\<close>

fun periodic_outputs :: "('op \<Rightarrow> exception + 'op) \<Rightarrow> 'op list \<Rightarrow> 'op list \<times> exception option" where
  "periodic_outputs f [] = ([], None)"
| "periodic_outputs f (Ptr # rest) =
     (case f Ptr of
        Inl cep \<Rightarrow> (Ptr # rest, Some cep)
      | Inr Ptr' \<Rightarrow> (case periodic_outputs f rest of (rest', r) \<Rightarrow> (Ptr' # rest', r)))"

text \<open>The handler of \<open>catch (std::exception &cep)\<close>.\<close>

definition rethrow :: "('dyn, 'op) Simulation \<Rightarrow> exception \<Rightarrow> exception" where
  "rethrow s cep =
     Exception ([Str ''Exception caught while executing event '', Num (eventCount s),
                 Str [CHR 0x0A]] @ what cep)"

text \<open>
  \<open>Simulation::runSimulationStep\<close>. A normal return gives the returned flag and the
  simulation; a throw gives the exception and the simulation as it stands.
\<close>

definition runSimulationStep ::
  "('dyn, 'op) StepOps \<Rightarrow> bool \<Rightarrow> ('dyn, 'op) Simulation \<Rightarrow>
     (exception \<times> ('dyn, 'op) Simulation) + (bool \<times> ('dyn, 'op) Simulation)" where
  "runSimulationStep ops silentMode s =
     (if status_rank (status s) < status_rank INITIALISED then
        Inl (Exception [Str ''Bad state for runSimulation()''], s)
      else
        (case runNextEvent ops s of
           Inl (cep, s1) \<Rightarrow> Inl (rethrow s1 cep, s1)
         | Inr s1 \<Rightarrow>
            (if eventCount s1 \<ge> nextPrint s1 \<and> \<not> silentMode \<and> length (outputPlugins s1) \<noteq> 0 then
               (case periodic_outputs (periodicOutput ops) (outputPlugins s1) of
                  (plugs, Some cep) \<Rightarrow>
                    (let s2 = s1\<lparr>outputPlugins := plugs\<rparr> in Inl (rethrow s2 cep, s2))
                | (plugs, None) \<Rightarrow>
                    (let s2 = s1\<lparr>outputPlugins := plugs,
                                 nextPrint := eventCount s1 + eventPrintInterval s1\<rparr>
                     in Inr (eventCount s2 < endEventCount s2, s2)))
             else Inr (eventCount s1 < endEventCount s1, s1))))"

text \<open>
  Successive calls of \<open>runSimulationStep\<close>, one per entry of the list of \<open>silentMode\<close>
  arguments, as the driver's loop makes them: the flags returned by the calls that
  completed, up to the first call that throws.
\<close>

fun run_steps :: "('dyn, 'op) StepOps \<Rightarrow> bool list \<Rightarrow> ('dyn, 'op) Simulation \<Rightarrow> bool list" where
  "run_steps ops [] s = []"
| "run_steps ops (silentMode # rest) s =
     (case runSimulationStep ops silentMode s of
        Inl _ \<Rightarrow> []
      | Inr (flag, s') \<Rightarrow> flag # run_steps ops rest s')"

text \<open>
  What the event loop relies on from the scheduler: an executed event never lowers
  \<open>eventCount\<close>, and it leaves \<open>endEventCount\<close> alone or sets it to the current
  \<open>eventCount\<close>, as a shutdown does.
\<close>

definition counts_only_increase :: "('dyn, 'op) StepOps \<Rightarrow> bool" where
  "counts_only_increase ops \<longleftrightarrow>
     (\<forall>s s'. runNextEvent ops s = Inr s' \<longrightarrow>
        eventCount s \<le> eventCount s'
        \<and> (endEventCount s' = endEventCount s \<or> endEventCount s' = eventCount s'))"

subsection \<open>Volume and packing fraction\<close>

text \<open>\<open>Simulation::getSimVolume\<close>: the product of the edges, accumulated from \<open>1.0\<close>.\<close>

definition getSimVolume :: "('dyn, 'op) Simulation \<Rightarrow> real" where
  "getSimVolume s = fold (\<lambda>iDim vol. vol * vnth (primaryCellSize s) iDim) [0..<NDIM] 1"

text \<open>
  \<open>Simulation::getPackingFraction\<close>: the excluded volumes that the self interactions
  report, summed over the particles; \<open>getInteraction\<close> throws for a particle without one.
\<close>

fun excluded_volume :: "Interaction list \<Rightarrow> real \<Rightarrow> Particle list \<Rightarrow> exception + real" where
  "excluded_volume ints volume [] = Inr volume"
| "excluded_volume ints volume (particle # rest) =
     (case getInteraction ints particle particle of
        Inl e \<Rightarrow> Inl e
      | Inr ptr \<Rightarrow> excluded_volume ints (volume + getExcludedVolume ptr (getID particle)) rest)"

definition getPackingFraction :: "('dyn, 'op) Simulation \<Rightarrow> exception + real" where
  "getPackingFraction s =
     (case excluded_volume (interactions s) 0 (particles s) of
        Inl e \<Rightarrow> Inl e
      | Inr volume \<Rightarrow> Inr (volume / getSimVolume s))"

section \<open>The compression plugin\<close>

text \<open>
  \<open>pow(x, y)\<close> of the C library on a base that is not negative, which is where
  \<open>limitPackingFraction\<close> uses it.
\<close>

definition pow :: "real \<Rightarrow> real \<Rightarrow> real" where
  "pow x y = x powr y"

record IPCompression =
  growthRate :: real

text \<open>
  \<open>IPCompression::limitPackingFraction\<close>: throws when the target lies below the current
  packing fraction, and otherwise pushes a \<open>SystHalt\<close> onto the systems.
\<close>

definition limitPackingFraction ::
  "IPCompression \<Rightarrow> real \<Rightarrow> ('dyn, 'op) Simulation \<Rightarrow> exception + ('dyn, 'op) Simulation" where
  "limitPackingFraction plugin targetp s =
     (case getPackingFraction s of
        Inl e \<Rightarrow> Inl e
      | Inr packfrac \<Rightarrow>
          if targetp < packfrac then
            Inl (Exception [Str ''Target packing fraction is lower than current!''])
          else
            Inr (s\<lparr>systems := systems s
                   @ [SystHalt ((pow (targetp / packfrac) (1 / 3) - 1) / growthRate plugin)
                        ''CompresionLimiter'']\<rparr>))"

section \<open>Units in the configuration file\<close>

text \<open>
  An XML node is seen through its attributes. \<open>getAttribute(name).as<double>()\<close> throws
  when the attribute is missing and \<open>bad_lexical_cast\<close> when its text is not a number.
\<close>

datatype xml_value = XDouble real | XString string

type_synonym xml_node = "(string \<times> xml_value) list"

datatype 'a cast_result = Missing | BadCast | Value 'a

definition getAttribute_double :: "xml_node \<Rightarrow> string \<Rightarrow> real cast_result" where
  "getAttribute_double XML name =
     (case map_of XML name of
        None \<Rightarrow> Missing
      | Some (XString _) \<Rightarrow> BadCast
      | Some (XDouble x) \<Rightarrow> Value x)"

record SpSphericalTop =
  top_mass :: string
  top_spName :: string
  top_intName :: string
  inertiaConstant :: real

text \<open>
  \<open>SpSphericalTop::operator<<\<close>, after \<open>SpPoint::operator<<\<close> has read the attributes of
  the base class. The text thrown for a missing attribute is the XML reader's own.
\<close>

definition SpSphericalTop_load :: "Units \<Rightarrow> xml_node \<Rightarrow> SpSphericalTop \<Rightarrow> exception + SpSphericalTop" where
  "SpSphericalTop_load u XML sp =
     (case getAttribute_double XML ''InertiaConstant'' of
        Value x \<Rightarrow> Inr (sp\<lparr>inertiaConstant := x * unitArea u\<rparr>)
      | BadCast \<Rightarrow> Inl (Exception [Str ''Failed a lexical cast in CSSphericalTop''])
      | Missing \<Rightarrow> Inl (Exception [Str ''Missing attribute '', Str ''InertiaConstant'']))"

text \<open>\<open>SpSphericalTop::outputXML\<close>; the range that follows the attributes is left out.\<close>

definition SpSphericalTop_outputXML :: "Units \<Rightarrow> string \<Rightarrow> SpSphericalTop \<Rightarrow> xml_node" where
  "SpSphericalTop_outputXML u type sp =
     [(''InertiaConstant'', XDouble (inertiaConstant sp / unitArea u)),
      (''Mass'', XString (top_mass sp)),
      (''Name'', XString (top_spName sp)),
      (''IntName'', XString (top_intName sp)),
      (''Type'', XString type)]"

text \<open>
  \<open>Simulation::loadXMLfile\<close>, the primary cell's size:
  \<open>primaryCellSize << simNode.getNode("SimulationSize"); primaryCellSize /= units.unitLength();\<close>
\<close>

definition loadXMLfile_SimulationSize ::
  "Vector \<Rightarrow> ('dyn, 'op) Simulation \<Rightarrow> ('dyn, 'op) Simulation" where
  "loadXMLfile_SimulationSize xml s = s\<lparr>primaryCellSize := vdiv xml (unitLength (units s))\<rparr>"

text \<open>
  \<open>Simulation::writeXMLfile\<close>, the same quantity:
  \<open>XML << primaryCellSize / units.unitLength()\<close>.
\<close>

definition writeXMLfile_SimulationSize :: "('dyn, 'op) Simulation \<Rightarrow> Vector" where
  "writeXMLfile_SimulationSize s = vdiv (primaryCellSize s) (unitLength (units s))"

text \<open>
  \<open>Simulation::loadXMLfile\<close>, the mean free time: the attribute is read when it is there and
  parses, and \<open>lastRunMFT *= units.unitTime()\<close> follows in every case.
\<close>

definition loadXMLfile_lastMFT :: "xml_node \<Rightarrow> ('dyn, 'op) Simulation \<Rightarrow> ('dyn, 'op) Simulation" where
  "loadXMLfile_lastMFT simNode s =
     (let read = (case getAttribute_double simNode ''lastMFT'' of
                    Value x \<Rightarrow> x | _ \<Rightarrow> lastRunMFT s)
      in s\<lparr>lastRunMFT := read * unitTime (units s)\<rparr>)"

text \<open>
  \<open>Simulation::writeXMLfile\<close>, the same quantity. The attribute is written when the
  \<open>OPMisc\<close> plugin is loaded: the plugin's mean free time if it is finite, \<open>lastRunMFT\<close>
  otherwise. The argument is \<open>None\<close> without the plugin, \<open>Some None\<close> for a plugin whose
  \<open>getMFT()\<close> is infinite or not a number.
\<close>

definition writeXMLfile_lastMFT :: "real option option \<Rightarrow> ('dyn, 'op) Simulation \<Rightarrow> xml_node" where
  "writeXMLfile_lastMFT opMisc s =
     (case opMisc of
        None \<Rightarrow> []
      | Some (Some mft) \<Rightarrow> [(''lastMFT'', XDouble mft)]
      | Some None \<Rightarrow> [(''lastMFT'', XDouble (lastRunMFT s))])"

section \<open>Replica exchange\<close>

text \<open>
  Modelled from the spec: \<open>Scheduler::rescaleTimes\<close>, which is not among the source files.
  "Multiply every stored time by factor."
\<close>

definition rescaleTimes :: "real \<Rightarrow> Scheduler \<Rightarrow> Scheduler" where
  "rescaleTimes factor sch = sch\<lparr>sorter := map (\<lambda>ev. ev\<lparr>se_time := se_time ev * factor\<rparr>) (sorter sch)\<rparr>"

text \<open>
  Modelled from the spec: \<open>Scheduler::rebuildSystemEvents\<close>, which is not among the source
  files. "Re-push the fixed-schedule SYSTEM-event set (tickers, halts)": the \<open>SYSTEM\<close>
  events held are dropped, and one is pushed for every system at its time, filed under
  the index \<open>N\<close> that follows the particles.
\<close>

definition rebuildSystemEvents :: "System list \<Rightarrow> nat \<Rightarrow> Scheduler \<Rightarrow> Scheduler" where
  "rebuildSystemEvents syss n sch =
     sch\<lparr>sorter := filter (\<lambda>ev. se_type ev \<noteq> SYSTEM) (sorter sch)
                    @ map (\<lambda>sys. \<lparr>se_time = sys_dt sys, se_type = SYSTEM, se_particle = n\<rparr>) syss\<rparr>"

text \<open>
  The operations of the collaborators that \<open>Simulation::replexerSwap\<close> calls:
  \<open>Dynamics::updateAllParticles\<close>, which brings the particles up to the system time,
  \<open>System::replicaExchange\<close>, \<open>Dynamics::replicaExchange\<close>, \<open>OutputPlugin::replicaExchange\<close> and
  \<open>OutputPlugin::temperatureRescale\<close>. The exchanges work on two objects and return both.
\<close>

record ('dyn, 'op) ReplexOps =
  updateAllParticles :: "'dyn \<Rightarrow> real \<Rightarrow> Particle list \<Rightarrow> 'dyn \<times> Particle list"
  sysReplicaExchange :: "System \<Rightarrow> System \<Rightarrow> System \<times> System"
  dynReplicaExchange :: "'dyn \<Rightarrow> 'dyn \<Rightarrow> 'dyn \<times> 'dyn"
  opReplicaExchange :: "'op \<Rightarrow> 'op \<Rightarrow> 'op \<times> 'op"
  temperatureRescale :: "real \<Rightarrow> 'op \<Rightarrow> 'op"

text \<open>
  A loop \<open>for (i = 0; i < xs.size(); ++i) f(xs[i], other[i])\<close>. Reading \<open>other[i]\<close> beyond
  the end of \<open>other\<close> has no defined behaviour; the result is \<open>None\<close> then.
\<close>

fun exchange_each :: "('a \<Rightarrow> 'a \<Rightarrow> 'a \<times> 'a) \<Rightarrow> 'a list \<Rightarrow> 'a list \<Rightarrow> ('a list \<times> 'a list) option" where
  "exchange_each f [] ys = Some ([], ys)"
| "exchange_each f (x # xs) [] = None"
| "exchange_each f (x # xs) (y # ys) =
     (case f x y of (x', y') \<Rightarrow>
        (case exchange_each f xs ys of
           None \<Rightarrow> None
         | Some (xs', ys') \<Rightarrow> Some (x' # xs', y' # ys')))"

definition scale_velocities :: "real \<Rightarrow> Particle list \<Rightarrow> Particle list" where
  "scale_velocities scale ps = map (\<lambda>part. part\<lparr>getVelocity := vscale scale (getVelocity part)\<rparr>) ps"

text \<open>The body of the loop over the output plugins.\<close>

definition replex_plugin :: "('dyn, 'op) ReplexOps \<Rightarrow> real \<Rightarrow> real \<Rightarrow> 'op \<Rightarrow> 'op \<Rightarrow> 'op \<times> 'op" where
  "replex_plugin ops scale1 scale2 p q =
     (case opReplicaExchange ops p q of (p', q') \<Rightarrow>
        (temperatureRescale ops (scale1 * scale1) p', temperatureRescale ops (scale2 * scale2) q'))"

text \<open>
  \<open>Simulation::replexerSwap\<close>, on \<open>this\<close> and \<open>other\<close>, returning both, in the build without
  \<open>DYNAMO_DEBUG\<close>. A scheduler pointer that is null cannot be followed: the result is
  \<open>None\<close>, as for an index out of range.
\<close>

definition replexerSwap ::
  "('dyn, 'op) ReplexOps \<Rightarrow> ('dyn, 'op) Simulation \<Rightarrow> ('dyn, 'op) Simulation \<Rightarrow>
     (('dyn, 'op) Simulation \<times> ('dyn, 'op) Simulation) option" where
  "replexerSwap ops this other =
     (case updateAllParticles ops (dynamics this) (systemTime this) (particles this) of (d1, ps1) \<Rightarrow>
      case updateAllParticles ops (dynamics other) (systemTime other) (particles other) of (d2, ps2) \<Rightarrow>
      case exchange_each (sysReplicaExchange ops) (systems this) (systems other) of
        None \<Rightarrow> None
      | Some (sys1, sys2) \<Rightarrow>
      case dynReplicaExchange ops d1 d2 of (d1', d2') \<Rightarrow>
      let scale1 = sqrt (vnth (getEnsembleVals (ensemble other)) 2
                          / vnth (getEnsembleVals (ensemble this)) 2);
          scale2 = 1 / scale1
      in
      case (ptrScheduler this, ptrScheduler other) of
        (Some sch1, Some sch2) \<Rightarrow>
          (case exchange_each (replex_plugin ops scale1 scale2)
                  (outputPlugins this) (outputPlugins other) of
             None \<Rightarrow> None
           | Some (plugs1, plugs2) \<Rightarrow>
               Some (this\<lparr>systemTime := systemTime other, eventCount := eventCount other,
                          systems := sys1, dynamics := d1',
                          particles := scale_velocities scale1 ps1,
                          ptrScheduler := Some (rebuildSystemEvents sys1 (length ps1)
                                                  (rescaleTimes scale2 sch1)),
                          outputPlugins := plugs1, ensemble := ensemble other\<rparr>,
                     other\<lparr>systemTime := systemTime this, eventCount := eventCount this,
                           systems := sys2, dynamics := d2',
                           particles := scale_velocities scale2 ps2,
                           ptrScheduler := Some (rebuildSystemEvents sys2 (length ps2)
                                                   (rescaleTimes scale1 sch2)),
                           outputPlugins := plugs2, ensemble := ensemble this\<rparr>))
      | _ \<Rightarrow> None)"

text \<open>
  Modelled from the spec: the "total kinetic energy" of a simulation, which no function of
  the source files computes. For the masses \<open>mass\<close> of the particle IDs it is the sum of
  \<open>mass * v\<^sup>2 / 2\<close> over the particles.
\<close>

definition kineticEnergy :: "(nat \<Rightarrow> real) \<Rightarrow> Particle list \<Rightarrow> real" where
  "kineticEnergy mass ps =
     sum_list (map (\<lambda>part. mass (getID part) * vnrm2 (getVelocity part) / 2) ps)"

section \<open>Event handlers of the dynamics\<close>

text \<open>
  The handlers of \<open>GParabolaSentinel\<close> and \<open>IDumbbells\<close> work on \<open>SimData\<close>, of which they
  use the clock \<open>dSysTime\<close>, the accumulator \<open>freestreamAcc\<close>, the event count, the particle
  store, the scheduler, the output plugins and what \<open>Sim->stream(dt)\<close> advances (the
  boundary condition, the Liouvillean and the systems; \<open>'env\<close> here). The scheduler, that
  environment and the plugins are abstract. A particle reference is the index of the
  particle in the store.
\<close>

fun add_dt :: "etime \<Rightarrow> etime \<Rightarrow> etime" where
  "add_dt (Finite a) (Finite b) = Finite (a + b)"
| "add_dt _ _ = HUGE_VAL"

record ('sch, 'env, 'op) SimData =
  dSysTime :: real
  freestreamAcc :: etime
  sd_eventCount :: nat
  particleList :: "Particle list"
  sd_scheduler :: 'sch
  sd_env :: 'env
  sd_outputPlugins :: "'op list"

record GlobalEvent =
  ge_particle :: nat
  ge_dt :: etime
  ge_type :: EEventType

subsection \<open>The parabola sentinel\<close>

text \<open>
  The collaborators of the sentinel: \<open>Liouvillean::updateParticle\<close>,
  \<open>getParabolaSentinelTime\<close> and \<open>enforceParabola\<close>, \<open>Scheduler::stream\<close> and
  \<open>Scheduler::fullUpdate\<close>, and \<open>Sim->stream\<close>. \<open>fullUpdate\<close> reads the simulation and
  gives the scheduler and the particle store back: computing events brings particles up to
  date.
\<close>

record ('sch, 'env, 'op) SentinelOps =
  updateParticle :: "'env \<Rightarrow> real \<Rightarrow> Particle \<Rightarrow> Particle"
  getParabolaSentinelTime :: "'env \<Rightarrow> Particle \<Rightarrow> etime"
  enforceParabola :: "'env \<Rightarrow> Particle \<Rightarrow> Particle"
  schedStream :: "real \<Rightarrow> 'sch \<Rightarrow> 'sch"
  simStream :: "real \<Rightarrow> 'env \<Rightarrow> 'env"
  fullUpdate :: "('sch, 'env, 'op) SimData \<Rightarrow> nat \<Rightarrow> 'sch \<times> Particle list"

definition update_particle ::
  "('sch, 'env, 'op) SentinelOps \<Rightarrow> ('sch, 'env, 'op) SimData \<Rightarrow> nat \<Rightarrow> ('sch, 'env, 'op) SimData" where
  "update_particle ops sim ID =
     sim\<lparr>particleList := (particleList sim)
            [ID := updateParticle ops (sd_env sim) (dSysTime sim) (particleList sim ! ID)]\<rparr>"

definition full_update ::
  "('sch, 'env, 'op) SentinelOps \<Rightarrow> ('sch, 'env, 'op) SimData \<Rightarrow> nat \<Rightarrow> ('sch, 'env, 'op) SimData" where
  "full_update ops sim ID =
     (case fullUpdate ops sim ID of (sch, ps) \<Rightarrow> sim\<lparr>sd_scheduler := sch, particleList := ps\<rparr>)"

text \<open>\<open>GParabolaSentinel::getEvent\<close>: the particle is brought up to date in the store.\<close>

definition GParabolaSentinel_getEvent ::
  "('sch, 'env, 'op) SentinelOps \<Rightarrow> ('sch, 'env, 'op) SimData \<Rightarrow> nat \<Rightarrow>
     GlobalEvent \<times> ('sch, 'env, 'op) SimData" where
  "GParabolaSentinel_getEvent ops sim ID =
     (let sim1 = update_particle ops sim ID in
      (\<lparr>ge_particle = ID,
        ge_dt = getParabolaSentinelTime ops (sd_env sim1) (particleList sim1 ! ID),
        ge_type = VIRTUAL_PARABOLA\<rparr>, sim1))"

text \<open>
  \<open>GParabolaSentinel::runEvent\<close>, in the build without \<open>DYNAMO_DEBUG\<close>. There is no particle
  to refer to beyond the end of the store: the result is \<open>None\<close> then.
\<close>

definition GParabolaSentinel_runEvent ::
  "('sch, 'env, 'op) SentinelOps \<Rightarrow> ('sch, 'env, 'op) SimData \<Rightarrow> nat \<Rightarrow>
     ('sch, 'env, 'op) SimData option" where
  "GParabolaSentinel_runEvent ops sim ID =
     (if ID \<ge> length (particleList sim) then None
      else
        (let sim1 = update_particle ops sim ID in
         case GParabolaSentinel_getEvent ops sim1 ID of (iEvent, sim2) \<Rightarrow>
           (case ge_dt iEvent of
              HUGE_VAL \<Rightarrow> Some (full_update ops sim2 ID)
            | Finite dt \<Rightarrow>
                (let sim3 = sim2\<lparr>dSysTime := dSysTime sim2 + dt\<rparr>;
                     sim4 = sim3\<lparr>sd_scheduler := schedStream ops dt (sd_scheduler sim3)\<rparr>;
                     sim5 = sim4\<lparr>sd_env := simStream ops dt (sd_env sim4)\<rparr>;
                     sim6 = sim5\<lparr>particleList := (particleList sim5)
                              [ID := enforceParabola ops (sd_env sim5) (particleList sim5 ! ID)]\<rparr>;
                     sim7 = sim6\<lparr>freestreamAcc := add_dt (freestreamAcc sim6) (Finite dt)\<rparr>
                 in Some (full_update ops sim7 ID)))))"

text \<open>
  What the sentinel relies on from its collaborators: bringing a particle up to date twice
  is the same as once, and \<open>fullUpdate\<close> keeps the store's size and changes a particle's
  state at most by bringing it up to date.
\<close>

definition only_streams :: "('sch, 'env, 'op) SentinelOps \<Rightarrow> bool" where
  "only_streams ops \<longleftrightarrow>
     (\<forall>env t q. updateParticle ops env t (updateParticle ops env t q) = updateParticle ops env t q)
     \<and> (\<forall>sim ID. length (snd (fullUpdate ops sim ID)) = length (particleList sim)
           \<and> (\<forall>i < length (particleList sim).
                 snd (fullUpdate ops sim ID) ! i = particleList sim ! i
                 \<or> snd (fullUpdate ops sim ID) ! i
                     = updateParticle ops (sd_env sim) (dSysTime sim) (particleList sim ! i)))"

subsection \<open>Dumbbells and their capture map\<close>

record IDumbbells =
  db_length :: real
  db_e :: real
  db_r :: real
  captureMap :: "(nat \<times> nat) set"

text \<open>
  Modelled from the spec: the capture map of \<open>ISingleCapture\<close>, with \<open>addToCaptureMap\<close>,
  \<open>removeFromCaptureMap\<close> and \<open>isCaptured\<close>, which are not among the source files. "A
  symmetric set of currently-captured pairs": a pair is held under the key with the
  smaller ID first, so that the order of the two particles does not matter.
\<close>

definition cmKey :: "nat \<Rightarrow> nat \<Rightarrow> nat \<times> nat" where
  "cmKey p1 p2 = (min p1 p2, max p1 p2)"

definition addToCaptureMap :: "nat \<Rightarrow> nat \<Rightarrow> IDumbbells \<Rightarrow> IDumbbells" where
  "addToCaptureMap p1 p2 intr = intr\<lparr>captureMap := insert (cmKey p1 p2) (captureMap intr)\<rparr>"

definition removeFromCaptureMap :: "nat \<Rightarrow> nat \<Rightarrow> IDumbbells \<Rightarrow> IDumbbells" where
  "removeFromCaptureMap p1 p2 intr = intr\<lparr>captureMap := captureMap intr - {cmKey p1 p2}\<rparr>"

definition isCaptured :: "IDumbbells \<Rightarrow> nat \<Rightarrow> nat \<Rightarrow> bool" where
  "isCaptured intr p1 p2 \<longleftrightarrow> cmKey p1 p2 \<in> captureMap intr"

text \<open>
  The collaborators of \<open>IDumbbells::runEvent\<close>: the collision of the Liouvillean, which
  changes the particles and reports the event data \<open>'ped\<close>, \<open>signalParticleUpdate\<close>,
  \<open>Scheduler::fullUpdate\<close> for two particles and \<open>OutputPlugin::eventUpdate\<close>. None of them
  has the interaction's capture map in reach.
\<close>

record ('sch, 'env, 'op, 'ped) DumbbellOps =
  runOffCenterSphereOffCenterSphereCollision ::
    "'env \<Rightarrow> IntEvent \<Rightarrow> real \<Rightarrow> real \<Rightarrow> Particle list \<Rightarrow> 'ped \<times> Particle list"
  signalParticleUpdate :: "'ped \<Rightarrow> ('sch, 'env, 'op) SimData \<Rightarrow> ('sch, 'env, 'op) SimData"
  fullUpdate2 :: "('sch, 'env, 'op) SimData \<Rightarrow> nat \<Rightarrow> nat \<Rightarrow> 'sch \<times> Particle list"
  eventUpdate :: "IntEvent \<Rightarrow> 'ped \<Rightarrow> 'op \<Rightarrow> 'op"

definition full_update2 ::
  "('sch, 'env, 'op, 'ped) DumbbellOps \<Rightarrow> ('sch, 'env, 'op) SimData \<Rightarrow> nat \<Rightarrow> nat \<Rightarrow>
     ('sch, 'env, 'op) SimData" where
  "full_update2 ops sim p1 p2 =
     (case fullUpdate2 ops sim p1 p2 of (sch, ps) \<Rightarrow> sim\<lparr>sd_scheduler := sch, particleList := ps\<rparr>)"

text \<open>\<open>IDumbbells::runEvent\<close>: the interaction and the simulation after the event, or the throw.\<close>

definition IDumbbells_runEvent ::
  "('sch, 'env, 'op, 'ped) DumbbellOps \<Rightarrow> IDumbbells \<Rightarrow> ('sch, 'env, 'op) SimData \<Rightarrow>
     nat \<Rightarrow> nat \<Rightarrow> IntEvent \<Rightarrow> exception + (IDumbbells \<times> ('sch, 'env, 'op) SimData)" where
  "IDumbbells_runEvent ops intr sim p1 p2 iEvent =
     (case ev_type iEvent of
        CORE \<Rightarrow>
          (let sim1 = sim\<lparr>sd_eventCount := sd_eventCount sim + 1\<rparr> in
           case runOffCenterSphereOffCenterSphereCollision ops (sd_env sim1) iEvent
                  (db_e intr) (db_length intr) (particleList sim1) of (retval, ps) \<Rightarrow>
             (let sim2 = signalParticleUpdate ops retval (sim1\<lparr>particleList := ps\<rparr>);
                  sim3 = full_update2 ops sim2 p1 p2;
                  sim4 = sim3\<lparr>sd_outputPlugins :=
                                 map (eventUpdate ops iEvent retval) (sd_outputPlugins sim3)\<rparr>
              in Inr (intr, sim4)))
      | WELL_IN \<Rightarrow>
          (let intr' = addToCaptureMap p1 p2 intr;
               sim1 = full_update2 ops sim p1 p2;
               sim2 = sim1\<lparr>freestreamAcc := add_dt (freestreamAcc sim1) (ev_dt iEvent)\<rparr>
           in Inr (intr', sim2))
      | WELL_OUT \<Rightarrow>
          (let intr' = removeFromCaptureMap p1 p2 intr;
               sim1 = full_update2 ops sim p1 p2;
               sim2 = sim1\<lparr>freestreamAcc := add_dt (freestreamAcc sim1) (ev_dt iEvent)\<rparr>
           in Inr (intr', sim2))
      | _ \<Rightarrow> Inl (Exception [Str ''Unknown collision type'']))"

section \<open>The cell list\<close>

text \<open>
  \<open>CGCells\<close> keeps, for every cell, the head \<open>list\<close> of the chain of its particles, and for
  every particle the entry \<open>{prev, next, cell}\<close> of \<open>partCellData\<close>; \<open>-1\<close> stands for "none".
  Only the head of a cell is modelled: \<open>addToCell\<close> and \<open>removeFromCell\<close> touch nothing else
  of \<open>cellStruct\<close>.
\<close>

record partCEntry =
  prev :: int
  "next" :: int
  cell :: int

record cellStruct =
  list :: int

record CGCells =
  cells :: "cellStruct list"
  partCellData :: "partCEntry list"

text \<open>
  Indexing a vector with an \<open>int\<close>. An index out of range throws in the build with
  \<open>DYNAMO_DEBUG\<close> (\<open>at\<close>) and has no defined behaviour otherwise; both are \<open>None\<close>.
\<close>

definition in_range :: "int \<Rightarrow> 'a list \<Rightarrow> bool" where
  "in_range i xs \<longleftrightarrow> 0 \<le> i \<and> i < int (length xs)"

definition part_at :: "CGCells \<Rightarrow> int \<Rightarrow> partCEntry option" where
  "part_at st i = (if in_range i (partCellData st) then Some (partCellData st ! nat i) else None)"

definition cell_at :: "CGCells \<Rightarrow> int \<Rightarrow> cellStruct option" where
  "cell_at st i = (if in_range i (cells st) then Some (cells st ! nat i) else None)"

definition upd_part :: "int \<Rightarrow> (partCEntry \<Rightarrow> partCEntry) \<Rightarrow> CGCells \<Rightarrow> CGCells option" where
  "upd_part i f st =
     (if in_range i (partCellData st)
      then Some (st\<lparr>partCellData := (partCellData st)[nat i := f (partCellData st ! nat i)]\<rparr>)
      else None)"

definition upd_cell :: "int \<Rightarrow> (cellStruct \<Rightarrow> cellStruct) \<Rightarrow> CGCells \<Rightarrow> CGCells option" where
  "upd_cell i f st =
     (if in_range i (cells st)
      then Some (st\<lparr>cells := (cells st)[nat i := f (cells st ! nat i)]\<rparr>)
      else None)"

text \<open>\<open>CGCells::addToCell\<close>, statement by statement.\<close>

definition addToCell :: "int \<Rightarrow> int \<Rightarrow> CGCells \<Rightarrow> CGCells option" where
  "addToCell ID cellID st = do {
     c \<leftarrow> cell_at st cellID;
     st1 \<leftarrow> (if list c \<noteq> - 1 then upd_part (list c) (\<lambda>e. e\<lparr>prev := ID\<rparr>) st else Some st);
     c1 \<leftarrow> cell_at st1 cellID;
     st2 \<leftarrow> upd_part ID (\<lambda>e. e\<lparr>next := list c1\<rparr>) st1;
     st3 \<leftarrow> upd_cell cellID (\<lambda>c. c\<lparr>list := ID\<rparr>) st2;
     st4 \<leftarrow> upd_part ID (\<lambda>e. e\<lparr>prev := - 1\<rparr>) st3;
     upd_part ID (\<lambda>e. e\<lparr>cell := cellID\<rparr>) st4
   }"

text \<open>
  \<open>CGCells::removeFromCell\<close>; \<open>debug\<close> tells whether \<open>DYNAMO_DEBUG\<close> is defined, in which
  case the entry's cell is reset.
\<close>

definition removeFromCell :: "bool \<Rightarrow> int \<Rightarrow> CGCells \<Rightarrow> CGCells option" where
  "removeFromCell debug ID st = do {
     e \<leftarrow> part_at st ID;
     st1 \<leftarrow> (if prev e \<noteq> - 1 then upd_part (prev e) (\<lambda>x. x\<lparr>next := next e\<rparr>) st
            else upd_cell (cell e) (\<lambda>c. c\<lparr>list := next e\<rparr>) st);
     e1 \<leftarrow> part_at st1 ID;
     st2 \<leftarrow> (if next e1 \<noteq> - 1 then upd_part (next e1) (\<lambda>x. x\<lparr>prev := prev e1\<rparr>) st1
            else Some st1);
     if debug then upd_part ID (\<lambda>x. x\<lparr>cell := - 1\<rparr>) st2 else Some st2
   }"

text \<open>
  The chain of a cell, as the list of its particles from the head on. Following \<open>next\<close>
  from the head \<open>h\<close> visits the particles of the list in order and ends at \<open>-1\<close>:
\<close>

fun fwd :: "(nat \<Rightarrow> int) \<Rightarrow> int \<Rightarrow> nat list \<Rightarrow> bool" where
  "fwd nx h [] \<longleftrightarrow> h = - 1"
| "fwd nx h (x # xs) \<longleftrightarrow> h = int x \<and> fwd nx (nx x) xs"

text \<open>and \<open>prev\<close> of the first is \<open>p\<close>, \<open>prev\<close> of every other its predecessor:\<close>

fun bwd :: "(nat \<Rightarrow> int) \<Rightarrow> int \<Rightarrow> nat list \<Rightarrow> bool" where
  "bwd pv p [] \<longleftrightarrow> True"
| "bwd pv p (x # xs) \<longleftrightarrow> pv x = p \<and> bwd pv (int x) xs"

text \<open>
  The list \<open>xs\<close> is the chain of cell \<open>c\<close> with head \<open>h\<close>: a well-formed doubly-linked chain
  without a repeated particle, every particle of which records the cell \<open>c\<close>.
\<close>

definition dll :: "partCEntry list \<Rightarrow> nat \<Rightarrow> int \<Rightarrow> nat list \<Rightarrow> bool" where
  "dll pcd c h xs \<longleftrightarrow>
     fwd (\<lambda>x. next (pcd ! x)) h xs \<and> bwd (\<lambda>x. prev (pcd ! x)) (- 1) xs \<and> distinct xs
     \<and> (\<forall>x\<in>set xs. x < length pcd \<and> cell (pcd ! x) = int c)"

text \<open>The chains \<open>L\<close>, one per cell, are those of the state.\<close>

definition chains :: "CGCells \<Rightarrow> nat list list \<Rightarrow> bool" where
  "chains st L \<longleftrightarrow>
     length L = length (cells st)
     \<and> (\<forall>c<length L. dll (partCellData st) c (list (cells st ! c)) (L ! c))"

text \<open>
  A well-formed cell list: every cell's chain is well formed, and every particle is in
  a chain. It is then in one chain only, that of the cell its entry records.
\<close>

definition wf_cells :: "CGCells \<Rightarrow> nat list list \<Rightarrow> bool" where
  "wf_cells st L \<longleftrightarrow>
     chains st L \<and> (\<forall>i<length (partCellData st). \<exists>c<length L. i \<in> set (L ! c))"

section \<open>Concrete configurations\<close>

subsection \<open>A registry of interactions\<close>

definition part0 :: Particle where
  "part0 = \<lparr>getID = 0, getPosition = (0, 0, 0), getVelocity = (1, 0, 0)\<rparr>"

definition part1 :: Particle where
  "part1 = \<lparr>getID = 1, getPosition = (2, 0, 0), getVelocity = (-1, 0, 0)\<rparr>"

definition mkInteraction :: "string \<Rightarrow> (nat \<Rightarrow> nat \<Rightarrow> bool) \<Rightarrow> EEventType \<Rightarrow> real \<Rightarrow> Interaction" where
  "mkInteraction nm sel ty d =
     \<lparr>intName = nm,
      isInteraction = (\<lambda>p q. sel (getID p) (getID q)),
      int_getEvent = (\<lambda>p q. \<lparr>ev_particle1 = getID p, ev_particle2 = getID q,
                              ev_dt = Finite d, ev_type = ty\<rparr>),
      maxIntDist = d,
      getExcludedVolume = (\<lambda>_. d * d * d / 2)\<rparr>"

definition intSelf :: Interaction where
  "intSelf = mkInteraction ''Self'' (\<lambda>i j. i = j) NONE 1"

definition intPair :: Interaction where
  "intPair = mkInteraction ''Pair'' (\<lambda>i j. i \<noteq> j) CORE 1"

definition intAll :: Interaction where
  "intAll = mkInteraction ''All'' (\<lambda>i j. True) WELL_IN 2"

subsection \<open>A concrete simulation\<close>

definition speciesAll :: Species where
  "speciesAll = \<lparr>spName = ''Bulk'', isSpecies = (\<lambda>_. True), getCount = 2, getMass = (\<lambda>_. 1)\<rparr>"

definition unitUnits :: Units where
  "unitUnits = \<lparr>unitLength = 1, unitTime = 1, unitMass = 1\<rparr>"

definition simBox :: "Vector \<Rightarrow> (unit, unit) Simulation" where
  "simBox L =
     \<lparr>systemTime = 0, eventCount = 0, endEventCount = 100000, eventPrintInterval = 50000,
      nextPrintEvent = 0, nextPrint = 0, primaryCellSize = L, lastRunMFT = 0, status = START,
      particles = [part0, part1], species = [speciesAll],
      interactions = [intSelf, intPair, intAll], BCs = BCPeriodic, systems = [],
      ensemble = \<lparr>getEnsembleVals = (2, 1, 1)\<rparr>, ptrScheduler = Some \<lparr>sorter = []\<rparr>,
      outputPlugins = [()], units = unitUnits, dynamics = ()\<rparr>"

definition initOps :: "(unit, unit) InitOps" where
  "initOps = \<lparr>speciesInitialise = Inr, dynamicsInitialise = Inr,
              interactionInitialise = (\<lambda>ID. Inr)\<rparr>"

text \<open>A scheduler whose every event is counted, and one that throws after counting.\<close>

definition countingOps :: "(unit, unit) StepOps" where
  "countingOps = \<lparr>runNextEvent = (\<lambda>s. Inr (s\<lparr>eventCount := eventCount s + 1\<rparr>)),
                  periodicOutput = Inr\<rparr>"

definition throwingOps :: "(unit, unit) StepOps" where
  "throwingOps =
     \<lparr>runNextEvent = (\<lambda>s. Inl (Exception [Str ''Unknown collision type''],
                              s\<lparr>eventCount := eventCount s + 1\<rparr>)),
      periodicOutput = Inr\<rparr>"

subsection \<open>Two replicas\<close>

definition replexOps :: "(unit, unit) ReplexOps" where
  "replexOps = \<lparr>updateAllParticles = (\<lambda>d t ps. (d, ps)),
                sysReplicaExchange = (\<lambda>a b. (a, b)),
                dynReplicaExchange = (\<lambda>a b. (a, b)),
                opReplicaExchange = (\<lambda>a b. (b, a)),
                temperatureRescale = (\<lambda>f p. p)\<rparr>"

definition partFast :: Particle where
  "partFast = \<lparr>getID = 0, getPosition = (0, 0, 0), getVelocity = (3, 0, 0)\<rparr>"

definition coldEvent :: SchedEvent where
  "coldEvent = \<lparr>se_time = 6, se_type = CELL, se_particle = 0\<rparr>"

definition hotEvent :: SchedEvent where
  "hotEvent = \<lparr>se_time = 1, se_type = CELL, se_particle = 0\<rparr>"

definition simCold :: "(unit, unit) Simulation" where
  "simCold = (simBox (5, 5, 5))
     \<lparr>systemTime := 10, eventCount := 100, particles := [part0],
      ensemble := \<lparr>getEnsembleVals = (1, 125, 1)\<rparr>,
      ptrScheduler := Some \<lparr>sorter = [coldEvent]\<rparr>, status := INITIALISED\<rparr>"

definition simHot :: "(unit, unit) Simulation" where
  "simHot = (simBox (5, 5, 5))
     \<lparr>systemTime := 20, eventCount := 200, particles := [partFast],
      ensemble := \<lparr>getEnsembleVals = (1, 125, 4)\<rparr>,
      ptrScheduler := Some \<lparr>sorter = [hotEvent]\<rparr>, status := INITIALISED\<rparr>"

definition oneMass :: "nat \<Rightarrow> real" where
  "oneMass ID = 1"

subsection \<open>A particle under gravity and a pair of dumbbells\<close>

text \<open>
  A one-particle simulation whose environment is gravity along \<open>z\<close>. The sentinel time is
  the time to the apex of the parabola, and infinite once the particle falls.
\<close>

definition gravityOps :: "(nat, real, unit) SentinelOps" where
  "gravityOps =
     \<lparr>updateParticle = (\<lambda>g t q. q),
      getParabolaSentinelTime =
        (\<lambda>g q. case getVelocity q of (vx, vy, vz) \<Rightarrow> if vz > 0 then Finite (vz / g) else HUGE_VAL),
      enforceParabola = (\<lambda>g q. case getVelocity q of (vx, vy, vz) \<Rightarrow> q\<lparr>getVelocity := (vx, vy, 0)\<rparr>),
      schedStream = (\<lambda>dt sch. sch),
      simStream = (\<lambda>dt g. g),
      fullUpdate = (\<lambda>sim ID. (Suc (sd_scheduler sim), particleList sim))\<rparr>"

definition simGravity :: "Vector \<Rightarrow> (nat, real, unit) SimData" where
  "simGravity v =
     \<lparr>dSysTime = 5, freestreamAcc = Finite 1, sd_eventCount = 10,
      particleList = [\<lparr>getID = 0, getPosition = (0, 0, 1), getVelocity = v\<rparr>],
      sd_scheduler = 0, sd_env = 2, sd_outputPlugins = []\<rparr>"

definition dumbbellOps :: "(nat, real, unit, unit) DumbbellOps" where
  "dumbbellOps =
     \<lparr>runOffCenterSphereOffCenterSphereCollision = (\<lambda>env ev e l ps. ((), ps)),
      signalParticleUpdate = (\<lambda>ped sim. sim),
      fullUpdate2 = (\<lambda>sim p1 p2. (Suc (sd_scheduler sim), particleList sim)),
      eventUpdate = (\<lambda>ev ped p. p)\<rparr>"

definition dumbbells :: IDumbbells where
  "dumbbells = \<lparr>db_length = 1, db_e = 1, db_r = 1 / 2, captureMap = {(2, 3)}\<rparr>"

definition pairEvent :: "EEventType \<Rightarrow> IntEvent" where
  "pairEvent ty = \<lparr>ev_particle1 = 1, ev_particle2 = 0, ev_dt = Finite (1 / 4), ev_type = ty\<rparr>"

subsection \<open>A cell list\<close>

text \<open>Three particles in two cells: the chain of cell 0 is \<open>2, 0\<close>, that of cell 1 is \<open>1\<close>.\<close>

definition cellsEx :: CGCells where
  "cellsEx =
     \<lparr>cells = [\<lparr>list = 2\<rparr>, \<lparr>list = 1\<rparr>],
      partCellData = [\<lparr>prev = 2, next = - 1, cell = 0\<rparr>,
                      \<lparr>prev = - 1, next = - 1, cell = 1\<rparr>,
                      \<lparr>prev = - 1, next = 0, cell = 0\<rparr>]\<rparr>"

section \<open>Dispatch priority\<close>

lemma getInteraction_append:
  "\<forall>j\<in>set pre. \<not> isInteraction j p1 p2 \<Longrightarrow>
   getInteraction (pre @ rest) p1 p2 = getInteraction rest p1 p2"
  by (induction pre) auto

lemma getEvent_append:
  "\<forall>j\<in>set pre. \<not> isInteraction j p1 p2 \<Longrightarrow>
   getEvent (pre @ rest) p1 p2 = getEvent rest p1 p2"
  by (induction pre) auto

lemma getInteraction_none:
  "\<forall>j\<in>set ints. \<not> isInteraction j p1 p2 \<Longrightarrow> \<exists>e. getInteraction ints p1 p2 = Inl e"
  by (induction ints) auto

lemma getEvent_none:
  "\<forall>j\<in>set ints. \<not> isInteraction j p1 p2 \<Longrightarrow> \<exists>e. getEvent ints p1 p2 = Inl e"
  by (induction ints) auto

text \<open>
  Claim C1. For every pair of particles, \<open>getInteraction\<close> and \<open>getEvent\<close> answer with
  the first interaction of the list, in list order, whose selector matches the pair:
  whenever the list splits as \<open>pre @ i # post\<close> with no match in \<open>pre\<close> and a match at
  \<open>i\<close>, the result is \<open>i\<close> (respectively the event of \<open>i\<close>), whatever \<open>post\<close> holds, so
  no later matching interaction is consulted. If no interaction of the list matches,
  both raise an error.
\<close>

theorem first_match_wins:
  "(\<forall>pre i post. ints = pre @ i # post \<and> (\<forall>j\<in>set pre. \<not> isInteraction j p1 p2)
        \<and> isInteraction i p1 p2 \<longrightarrow>
      getInteraction ints p1 p2 = Inr i \<and> getEvent ints p1 p2 = Inr (int_getEvent i p1 p2))
   \<and> ((\<forall>j\<in>set ints. \<not> isInteraction j p1 p2) \<longrightarrow>
      (\<exists>e. getInteraction ints p1 p2 = Inl e) \<and> (\<exists>e. getEvent ints p1 p2 = Inl e))"
proof (intro conjI allI impI)
  fix pre i post
  assume h: "ints = pre @ i # post \<and> (\<forall>j\<in>set pre. \<not> isInteraction j p1 p2)
      \<and> isInteraction i p1 p2"
  then show "getInteraction ints p1 p2 = Inr i"
    by (simp add: getInteraction_append)
  from h show "getEvent ints p1 p2 = Inr (int_getEvent i p1 p2)"
    by (simp add: getEvent_append)
next
  assume "\<forall>j\<in>set ints. \<not> isInteraction j p1 p2"
  then show "\<exists>e. getInteraction ints p1 p2 = Inl e"
    by (rule getInteraction_none)
next
  assume "\<forall>j\<in>set ints. \<not> isInteraction j p1 p2"
  then show "\<exists>e. getEvent ints p1 p2 = Inl e"
    by (rule getEvent_none)
qed

theorem first_match_wins_witness:
  "getInteraction [intSelf, intPair, intAll] part0 part1 = Inr intPair
   \<and> getEvent [intSelf, intPair, intAll] part0 part1 = Inr (int_getEvent intPair part0 part1)
   \<and> isInteraction intAll part0 part1
   \<and> (\<exists>e. getInteraction [intSelf] part0 part1 = Inl e)
   \<and> (\<exists>e. getEvent [intSelf] part0 part1 = Inl e)"
proof -
  have a: "\<not> isInteraction intSelf part0 part1"
    by (simp add: intSelf_def mkInteraction_def part0_def part1_def)
  have b: "isInteraction intPair part0 part1"
    by (simp add: intPair_def mkInteraction_def part0_def part1_def)
  have c: "isInteraction intAll part0 part1"
    by (simp add: intAll_def mkInteraction_def)
  from first_match_wins [of "[intSelf, intPair, intAll]" part0 part1] a b
  have 1: "getInteraction [intSelf, intPair, intAll] part0 part1 = Inr intPair
      \<and> getEvent [intSelf, intPair, intAll] part0 part1 = Inr (int_getEvent intPair part0 part1)"
    by (elim conjE allE [of _ "[intSelf]"] allE [of _ intPair] allE [of _ "[intAll]"]) simp
  from first_match_wins [of "[intSelf]" part0 part1] a
  have 2: "(\<exists>e. getInteraction [intSelf] part0 part1 = Inl e)
      \<and> (\<exists>e. getEvent [intSelf] part0 part1 = Inl e)"
    by simp
  from 1 2 c show ?thesis by simp
qed

section \<open>The periodic image check\<close>

lemma Max_insert_max:
  fixes S :: "real set"
  assumes "finite S"
  shows "Max (insert (max m a) S) = Max (insert m (insert a S))"
proof (cases "S = {}")
  case True
  then show ?thesis by simp
next
  case False
  then show ?thesis using assms by (simp add: max.assoc)
qed

lemma longest_from_Max:
  "longest_from m xs = Max (insert m (maxIntDist ` set xs))"
proof (induction xs arbitrary: m)
  case Nil
  then show ?case by simp
next
  case (Cons a xs)
  have "longest_from m (a # xs) = longest_from (max m (maxIntDist a)) xs"
    by (simp add: max_def)
  also have "\<dots> = Max (insert (max m (maxIntDist a)) (maxIntDist ` set xs))"
    by (rule Cons.IH)
  also have "\<dots> = Max (insert m (insert (maxIntDist a) (maxIntDist ` set xs)))"
    by (rule Max_insert_max) simp
  finally show ?case by simp
qed

lemma check_primary_image_fails:
  assumes "BCs s = BCPeriodic" and "i < NDIM"
    and "vnth (primaryCellSize s) i \<le> 2 * getLongestInteraction s"
  shows "\<exists>e. check_primary_image s = Inl e"
proof -
  have "i \<in> set [0..<NDIM]" using assms(2) by simp
  then have "find (\<lambda>i. vnth (primaryCellSize s) i \<le> 2 * getLongestInteraction s) [0..<NDIM] \<noteq> None"
    using assms(3) by (auto simp: find_None_iff simp del: upt.simps)
  then show ?thesis using assms(1)
    by (auto simp: check_primary_image_def Let_def)
qed

lemma check_primary_image_passes:
  assumes "\<forall>i<NDIM. vnth (primaryCellSize s) i > 2 * getLongestInteraction s"
  shows "check_primary_image s = Inr ()"
proof -
  have "find (\<lambda>i. vnth (primaryCellSize s) i \<le> 2 * getLongestInteraction s) [0..<NDIM] = None"
    using assms by (auto simp: find_None_iff simp del: upt.simps)
  then show ?thesis
    by (simp add: check_primary_image_def Let_def)
qed

text \<open>
  Claim C5. Under a periodic boundary condition, when initialisation reaches the check of
  the primary image (the species and dynamics phases passed, every pairing has an
  interaction and the interactions initialised), it raises an error if some dimension
  \<open>i\<close> has \<open>primaryCellSize[i] < 2 * rmax\<close>, and it goes on to
  \<open>status = INTERACTION_INIT\<close> without error if \<open>primaryCellSize[i] > 2 * rmax\<close> in
  every dimension. Here \<open>rmax\<close> is \<open>getLongestInteraction()\<close>, the largest
  \<open>maxIntDist()\<close> over the interactions (and the initial \<open>0.0\<close> of the running maximum).
\<close>

theorem periodic_image_check:
  assumes "init_species ops s = Inr s1"
    and "init_dynamics ops s1 = Inr s2"
    and "check_pair_interactions (interactions s2) (particles s2) = Inr ()"
    and "for_each_ID (interactionInitialise ops) 0 (interactions s2) = Inr ints"
    and "BCs s2 = BCPeriodic"
  shows "getLongestInteraction (s2\<lparr>interactions := ints\<rparr>) = Max (insert 0 (maxIntDist ` set ints))
    \<and> ((\<exists>i<NDIM. vnth (primaryCellSize s2) i < 2 * getLongestInteraction (s2\<lparr>interactions := ints\<rparr>))
          \<longrightarrow> (\<exists>e. initialise_to_INTERACTION_INIT ops s = Inl e))
    \<and> ((\<forall>i<NDIM. vnth (primaryCellSize s2) i > 2 * getLongestInteraction (s2\<lparr>interactions := ints\<rparr>))
          \<longrightarrow> initialise_to_INTERACTION_INIT ops s
                = Inr (s2\<lparr>interactions := ints, status := INTERACTION_INIT\<rparr>))"
proof (intro conjI impI)
  show "getLongestInteraction (s2\<lparr>interactions := ints\<rparr>) = Max (insert 0 (maxIntDist ` set ints))"
    by (simp add: getLongestInteraction_def longest_from_Max)
next
  let ?s' = "s2\<lparr>interactions := ints\<rparr>"
  assume "\<exists>i<NDIM. vnth (primaryCellSize s2) i < 2 * getLongestInteraction ?s'"
  then obtain i where "i < NDIM" "vnth (primaryCellSize ?s') i \<le> 2 * getLongestInteraction ?s'"
    by auto
  moreover have "BCs ?s' = BCPeriodic" using assms(5) by simp
  ultimately obtain e where "check_primary_image ?s' = Inl e"
    using check_primary_image_fails by blast
  then have "init_interactions ops s2 = Inl e"
    using assms(3,4) by (simp add: init_interactions_def Let_def)
  then show "\<exists>e. initialise_to_INTERACTION_INIT ops s = Inl e"
    using assms(1,2) by (simp add: initialise_to_INTERACTION_INIT_def)
next
  let ?s' = "s2\<lparr>interactions := ints\<rparr>"
  assume "\<forall>i<NDIM. vnth (primaryCellSize s2) i > 2 * getLongestInteraction ?s'"
  then have "check_primary_image ?s' = Inr ()"
    using check_primary_image_passes [of ?s'] by simp
  then have "init_interactions ops s2 = Inr (?s'\<lparr>status := INTERACTION_INIT\<rparr>)"
    using assms(3,4) by (simp add: init_interactions_def Let_def)
  then show "initialise_to_INTERACTION_INIT ops s
      = Inr (s2\<lparr>interactions := ints, status := INTERACTION_INIT\<rparr>)"
    using assms(1,2) by (simp add: initialise_to_INTERACTION_INIT_def)
qed


lemma simBox_init_species:
  "init_species initOps (simBox L) = Inr ((simBox L)\<lparr>species := [speciesAll], status := SPECIES_INIT\<rparr>)"
  by (simp add: init_species_def simBox_def initOps_def speciesAll_def check_species_total_def N_def)

lemma simBox_self:
  "check_self_interactions [intSelf, intPair, intAll] [part0, part1] = Inr ()"
  by (simp add: intSelf_def mkInteraction_def)

lemma simBox_init_dynamics:
  "init_dynamics initOps ((simBox L)\<lparr>species := [speciesAll], status := SPECIES_INIT\<rparr>)
     = Inr ((simBox L)\<lparr>species := [speciesAll], status := DYNAMICS_INIT\<rparr>)"
  using simBox_self by (simp add: init_dynamics_def simBox_def initOps_def)

lemma simBox_pairs:
  "check_pair_interactions [intSelf, intPair, intAll] [part0, part1] = Inr ()"
proof -
  have "[0..<2] = [0, Suc 0]" "[Suc 0..<2] = [Suc 0]" by (simp_all add: upt_rec)
  then show ?thesis
  by (simp add: check_pair_interactions_def intSelf_def intPair_def mkInteraction_def
      part0_def part1_def)
qed

lemma simBox_longest: "longest_from 0 [intSelf, intPair, intAll] = 2"
proof -
  have d: "maxIntDist intSelf = 1" "maxIntDist intPair = 1" "maxIntDist intAll = 2"
    by (simp_all add: intSelf_def intPair_def intAll_def mkInteraction_def)
  show ?thesis by (simp add: d)
qed

theorem periodic_image_check_witness:
  "(\<exists>e. initialise_to_INTERACTION_INIT initOps (simBox (3, 5, 5)) = Inl e)
   \<and> initialise_to_INTERACTION_INIT initOps (simBox (5, 5, 5))
       = Inr ((simBox (5, 5, 5))\<lparr>species := [speciesAll], status := INTERACTION_INIT\<rparr>)"
proof -
  have ints: "for_each_ID (interactionInitialise initOps) 0 [intSelf, intPair, intAll]
      = Inr [intSelf, intPair, intAll]"
    by (simp add: initOps_def)
  have dims: "(\<forall>i<NDIM. P i) \<longleftrightarrow> P 0 \<and> P 1 \<and> P 2" for P
    by (auto simp: NDIM_def less_Suc_eq numeral_3_eq_3 numeral_2_eq_2)
  have dimsE: "(\<exists>i<NDIM. P i) \<longleftrightarrow> P 0 \<or> P 1 \<or> P 2" for P
    by (auto simp: NDIM_def less_Suc_eq numeral_3_eq_3 numeral_2_eq_2)
  let ?s2 = "\<lambda>L. (simBox L)\<lparr>species := [speciesAll], status := DYNAMICS_INIT\<rparr>"
  have i2: "interactions (?s2 L) = [intSelf, intPair, intAll]"
    and p2: "particles (?s2 L) = [part0, part1]"
    and b2: "BCs (?s2 L) = BCPeriodic"
    and c2: "primaryCellSize (?s2 L) = L" for L
    by (simp_all add: simBox_def)
  have same: "(?s2 L)\<lparr>interactions := [intSelf, intPair, intAll]\<rparr> = ?s2 L" for L
    by (simp add: simBox_def)
  have g: "getLongestInteraction (?s2 L) = 2" for L
    unfolding getLongestInteraction_def i2 by (rule simBox_longest)
  note pic = periodic_image_check [OF simBox_init_species simBox_init_dynamics,
      of _ "[intSelf, intPair, intAll]", unfolded i2 p2, OF simBox_pairs ints b2, unfolded same g c2]
  from pic [of "(3, 5, 5)"] have 1: "\<exists>e. initialise_to_INTERACTION_INIT initOps (simBox (3, 5, 5)) = Inl e"
    by (simp add: dimsE)
  from pic [of "(5, 5, 5)"] have 2: "initialise_to_INTERACTION_INIT initOps (simBox (5, 5, 5))
       = Inr ((simBox (5, 5, 5))\<lparr>species := [speciesAll], status := INTERACTION_INIT\<rparr>)"
    by (simp add: dims)
  from 1 2 show ?thesis by simp
qed

section \<open>Exceptions in a simulation step\<close>

text \<open>
  Claim C7. For every initialised simulation, if \<open>runNextEvent\<close> throws during
  \<open>runSimulationStep\<close>, the exception is caught and thrown again with the text
  "Exception caught while executing event", the event count at that moment and the text
  of the cause; the step does not return normally.
\<close>

theorem run_step_rethrows:
  assumes "status s = INITIALISED"
    and "runNextEvent ops s = Inl (cep, s1)"
  shows "runSimulationStep ops silentMode s
      = Inl (Exception ([Str ''Exception caught while executing event '', Num (eventCount s1),
                         Str [CHR 0x0A]] @ what cep), s1)
    \<and> (\<forall>flag s'. runSimulationStep ops silentMode s \<noteq> Inr (flag, s'))"
  using assms by (simp add: runSimulationStep_def rethrow_def)

theorem run_step_rethrows_witness:
  "runSimulationStep throwingOps False ((simBox (5, 5, 5))\<lparr>status := INITIALISED, eventCount := 41\<rparr>)
     = Inl (Exception [Str ''Exception caught while executing event '', Num 42, Str [CHR 0x0A],
                       Str ''Unknown collision type''],
            (simBox (5, 5, 5))\<lparr>status := INITIALISED, eventCount := 42\<rparr>)"
  using run_step_rethrows [of "(simBox (5, 5, 5))\<lparr>status := INITIALISED, eventCount := 41\<rparr>"
      throwingOps "Exception [Str ''Unknown collision type'']"
      "(simBox (5, 5, 5))\<lparr>status := INITIALISED, eventCount := 42\<rparr>" False]
  by (simp add: throwingOps_def simBox_def)

section \<open>Shutdown\<close>

lemma run_step_shut:
  assumes "counts_only_increase ops"
    and "endEventCount s \<le> eventCount s"
    and "runSimulationStep ops silentMode s = Inr (flag, s')"
  shows "\<not> flag \<and> endEventCount s' \<le> eventCount s'"
proof -
  from assms(3) obtain s1 where s1: "runNextEvent ops s = Inr s1"
    by (auto simp: runSimulationStep_def split: if_splits sum.splits)
  with assms(1) have "eventCount s \<le> eventCount s1"
    and "endEventCount s1 = endEventCount s \<or> endEventCount s1 = eventCount s1"
    by (auto simp: counts_only_increase_def)
  with assms(2) have le: "endEventCount s1 \<le> eventCount s1" by auto
  from assms(3) s1 have "eventCount s' = eventCount s1" "endEventCount s' = endEventCount s1"
    "flag \<longleftrightarrow> eventCount s1 < endEventCount s1"
    by (auto simp: runSimulationStep_def Let_def split: if_splits sum.splits prod.splits option.splits)
  with le show ?thesis by simp
qed

lemma run_steps_shut:
  assumes "counts_only_increase ops"
  shows "endEventCount s \<le> eventCount s \<Longrightarrow> \<forall>flag\<in>set (run_steps ops ms s). \<not> flag"
proof (induction ms arbitrary: s)
  case Nil
  then show ?case by simp
next
  case (Cons m ms)
  show ?case
  proof (cases "runSimulationStep ops m s")
    case (Inl a)
    then show ?thesis by simp
  next
    case (Inr b)
    obtain flag s' where b: "b = (flag, s')" by (cases b)
    from run_step_shut [OF assms Cons.prems] Inr b
    have "\<not> flag" "endEventCount s' \<le> eventCount s'" by auto
    with Cons.IH [of s'] Inr b show ?thesis by simp
  qed
qed

text \<open>
  Claim C8. After \<open>simShutdown\<close> has set \<open>endEventCount = eventCount\<close>, the next call of
  \<open>runSimulationStep\<close> that completes returns false, and so does every later one, given
  that the scheduler's events never lower \<open>eventCount\<close> and write \<open>endEventCount\<close> only as
  a shutdown does.
\<close>

theorem shutdown_stops_loop:
  assumes "counts_only_increase ops"
  shows "endEventCount (simShutdown s) = eventCount s
    \<and> (\<forall>silentMode flag s'. runSimulationStep ops silentMode (simShutdown s) = Inr (flag, s')
          \<longrightarrow> \<not> flag)
    \<and> (\<forall>ms. \<forall>flag\<in>set (run_steps ops ms (simShutdown s)). \<not> flag)"
proof (intro conjI allI impI)
  show "endEventCount (simShutdown s) = eventCount s"
    by (simp add: simShutdown_def)
next
  fix silentMode flag s'
  assume "runSimulationStep ops silentMode (simShutdown s) = Inr (flag, s')"
  with run_step_shut [OF assms, of "simShutdown s" silentMode flag s']
  show "\<not> flag" by (simp add: simShutdown_def)
next
  fix ms
  show "\<forall>flag\<in>set (run_steps ops ms (simShutdown s)). \<not> flag"
    by (rule run_steps_shut [OF assms]) (simp add: simShutdown_def)
qed

lemma countingOps_increase: "counts_only_increase countingOps"
  by (auto simp: counts_only_increase_def countingOps_def)

theorem shutdown_stops_loop_witness:
  "run_steps countingOps [True, False]
      (simShutdown ((simBox (5, 5, 5))\<lparr>status := INITIALISED, eventCount := 7\<rparr>)) = [False, False]
   \<and> run_steps countingOps [True]
      ((simBox (5, 5, 5))\<lparr>status := INITIALISED, eventCount := 7\<rparr>) = [True]"
proof -
  let ?s = "(simBox (5, 5, 5))\<lparr>status := INITIALISED, eventCount := 7\<rparr>"
  have len: "length (run_steps countingOps [True, False] (simShutdown ?s)) = 2"
    by (simp add: runSimulationStep_def countingOps_def simShutdown_def simBox_def
        split: prod.splits)
  from shutdown_stops_loop [OF countingOps_increase, of ?s]
  have "\<forall>flag\<in>set (run_steps countingOps [True, False] (simShutdown ?s)). \<not> flag"
    by blast
  with len have 1: "run_steps countingOps [True, False] (simShutdown ?s) = [False, False]"
    by (cases "run_steps countingOps [True, False] (simShutdown ?s)";
        cases "tl (run_steps countingOps [True, False] (simShutdown ?s))") auto
  have 2: "run_steps countingOps [True] ?s = [True]"
    by (simp add: runSimulationStep_def countingOps_def simBox_def)
  from 1 2 show ?thesis by simp
qed

section \<open>The compression limit\<close>

text \<open>
  Claim C9. For a simulation whose packing fraction \<open>packfrac\<close> is positive and a growth
  rate that is positive, \<open>limitPackingFraction(targetp)\<close> with \<open>targetp \<ge> packfrac\<close>
  appends a \<open>SystHalt\<close> at the time \<open>((targetp / packfrac)^(1/3) - 1) / growthRate\<close>, the
  power being the cube root and the time not negative; with \<open>targetp < packfrac\<close> it
  throws, and nothing is scheduled.
\<close>

theorem limit_packing_fraction:
  assumes "getPackingFraction s = Inr packfrac"
    and "0 < packfrac" and "0 < growthRate plugin"
  shows "(packfrac \<le> targetp \<longrightarrow>
            limitPackingFraction plugin targetp s
              = Inr (s\<lparr>systems := systems s
                     @ [SystHalt (((targetp / packfrac) powr (1 / 3) - 1) / growthRate plugin)
                          ''CompresionLimiter'']\<rparr>)
            \<and> (targetp / packfrac) powr (1 / 3) = root 3 (targetp / packfrac)
            \<and> 0 \<le> ((targetp / packfrac) powr (1 / 3) - 1) / growthRate plugin)
    \<and> (targetp < packfrac \<longrightarrow> (\<exists>e. limitPackingFraction plugin targetp s = Inl e))"
proof (intro conjI impI)
  assume le: "packfrac \<le> targetp"
  then show "limitPackingFraction plugin targetp s
      = Inr (s\<lparr>systems := systems s
             @ [SystHalt (((targetp / packfrac) powr (1 / 3) - 1) / growthRate plugin)
                  ''CompresionLimiter'']\<rparr>)"
    using assms(1) by (simp add: limitPackingFraction_def pow_def)
  from le assms(2) have ratio: "1 \<le> targetp / packfrac" by simp
  then have pos: "0 < targetp / packfrac" by simp
  from pos show "(targetp / packfrac) powr (1 / 3) = root 3 (targetp / packfrac)"
    by (simp add: root_powr_inverse)
  from ratio have "1 \<le> (targetp / packfrac) powr (1 / 3)"
    by (simp add: ge_one_powr_ge_zero)
  with assms(3) show "0 \<le> ((targetp / packfrac) powr (1 / 3) - 1) / growthRate plugin"
    by simp
next
  assume "targetp < packfrac"
  then show "\<exists>e. limitPackingFraction plugin targetp s = Inl e"
    using assms(1) by (simp add: limitPackingFraction_def)
qed

lemma simBox_volume: "getSimVolume (simBox (4, 4, 4)) = 64"
proof -
  have "[0..<NDIM] = [0, 1, 2]" by (simp add: NDIM_def upt_rec)
  then show ?thesis by (simp add: getSimVolume_def simBox_def)
qed

lemma simBox_packing: "getPackingFraction (simBox (4, 4, 4)) = Inr (1 / 64)"
proof -
  have "excluded_volume [intSelf, intPair, intAll] 0 [part0, part1] = Inr 1"
    by (simp add: intSelf_def mkInteraction_def part0_def part1_def)
  moreover have "interactions (simBox (4, 4, 4)) = [intSelf, intPair, intAll]"
    "particles (simBox (4, 4, 4)) = [part0, part1]"
    by (simp_all add: simBox_def)
  ultimately show ?thesis by (simp add: getPackingFraction_def simBox_volume)
qed

lemma cube_root_8: "(8::real) powr (1 / 3) = 2"
proof -
  have "(8::real) = 2 powr 3" by simp
  then have "(8::real) powr (1 / 3) = (2 powr 3) powr (1 / 3)" by simp
  also have "\<dots> = 2 powr (3 * (1 / 3))" by (rule powr_powr)
  finally show ?thesis by simp
qed

theorem limit_packing_fraction_witness:
  "limitPackingFraction \<lparr>growthRate = 1 / 100\<rparr> (1 / 8) (simBox (4, 4, 4))
     = Inr ((simBox (4, 4, 4))\<lparr>systems := [SystHalt 100 ''CompresionLimiter'']\<rparr>)
   \<and> (\<exists>e. limitPackingFraction \<lparr>growthRate = 1 / 100\<rparr> (1 / 128) (simBox (4, 4, 4)) = Inl e)"
proof -
  have sys: "systems (simBox (4, 4, 4)) = []" by (simp add: simBox_def)
  from limit_packing_fraction [OF simBox_packing, of "\<lparr>growthRate = 1 / 100\<rparr>" "1 / 8"]
  have 1: "limitPackingFraction \<lparr>growthRate = 1 / 100\<rparr> (1 / 8) (simBox (4, 4, 4))
     = Inr ((simBox (4, 4, 4))\<lparr>systems := [SystHalt 100 ''CompresionLimiter'']\<rparr>)"
    by (simp add: cube_root_8 sys)
  from limit_packing_fraction [OF simBox_packing, of "\<lparr>growthRate = 1 / 100\<rparr>" "1 / 128"]
  have 2: "\<exists>e. limitPackingFraction \<lparr>growthRate = 1 / 100\<rparr> (1 / 128) (simBox (4, 4, 4)) = Inl e"
    by simp
  from 1 2 show ?thesis by simp
qed

section \<open>Units on load and save\<close>

lemma inertia_constant_round_trip:
  assumes "unitLength u \<noteq> 0"
  shows "SpSphericalTop_load u (SpSphericalTop_outputXML u type sp) sp = Inr sp"
    and "getAttribute_double XML ''InertiaConstant'' = Value x \<Longrightarrow>
         SpSphericalTop_load u XML sp = Inr sp' \<Longrightarrow>
         getAttribute_double (SpSphericalTop_outputXML u type sp') ''InertiaConstant'' = Value x"
  using assms
  by (auto simp: SpSphericalTop_load_def SpSphericalTop_outputXML_def getAttribute_double_def
      unitArea_def)

text \<open>
  Claim C6 says that every dimensioned quantity is multiplied by its unit on load and
  divided by it on save, so that the two are inverse. \<open>InertiaConstant\<close> is handled so
  (\<open>inertia_constant_round_trip\<close>). \<open>SimulationSize\<close> is not: with \<open>unitLength = 2\<close> the
  XML value \<open>(4, 4, 4)\<close> is loaded as \<open>(2, 2, 2)\<close>, divided and not multiplied, and saving
  what was loaded writes \<open>(1, 1, 1)\<close>. Nor is \<open>lastMFT\<close> when the plugin's value is not
  finite: with \<open>unitTime = 2\<close> the XML value \<open>3\<close> is loaded as \<open>6\<close> and written back as
  \<open>6\<close>, undivided.
\<close>

theorem simulation_size_not_inverse:
  "primaryCellSize (loadXMLfile_SimulationSize (4, 4, 4)
       ((simBox (1, 1, 1))\<lparr>units := \<lparr>unitLength = 2, unitTime = 1, unitMass = 1\<rparr>\<rparr>)) = (2, 2, 2)
   \<and> writeXMLfile_SimulationSize (loadXMLfile_SimulationSize (4, 4, 4)
       ((simBox (1, 1, 1))\<lparr>units := \<lparr>unitLength = 2, unitTime = 1, unitMass = 1\<rparr>\<rparr>)) = (1, 1, 1)
   \<and> writeXMLfile_lastMFT (Some None) (loadXMLfile_lastMFT [(''lastMFT'', XDouble 3)]
       ((simBox (1, 1, 1))\<lparr>units := \<lparr>unitLength = 1, unitTime = 2, unitMass = 1\<rparr>\<rparr>))
      = [(''lastMFT'', XDouble 6)]"
  by (simp add: loadXMLfile_SimulationSize_def writeXMLfile_SimulationSize_def vdiv_def
      loadXMLfile_lastMFT_def writeXMLfile_lastMFT_def getAttribute_double_def simBox_def)

section \<open>The effect of a replica exchange\<close>

lemma vnrm2_vscale: "vnrm2 (vscale c v) = c * c * vnrm2 v"
  by (cases v) (simp add: vnrm2_def vscale_def algebra_simps)

lemma kineticEnergy_scale:
  "kineticEnergy mass (scale_velocities c ps) = c * c * kineticEnergy mass ps"
  by (induction ps) (simp_all add: kineticEnergy_def scale_velocities_def vnrm2_vscale algebra_simps)

lemma sqrt_ratio_square:
  assumes "0 < a" and "0 < b"
  shows "sqrt (b / a) * sqrt (b / a) = b / a"
    and "(1 / sqrt (b / a)) * (1 / sqrt (b / a)) = a / b"
proof -
  from assms have nn: "0 \<le> b / a" by simp
  then show 1: "sqrt (b / a) * sqrt (b / a) = b / a" by (simp only: real_sqrt_mult_self abs_of_nonneg)
  have "(1 / sqrt (b / a)) * (1 / sqrt (b / a)) = 1 / (sqrt (b / a) * sqrt (b / a))"
    by simp
  also have "\<dots> = 1 / (b / a)" by (simp only: 1)
  also have "\<dots> = a / b" by simp
  finally show "(1 / sqrt (b / a)) * (1 / sqrt (b / a)) = a / b" .
qed

text \<open>
  Claim C4, amended. For two simulations \<open>A\<close> and \<open>B\<close> with positive temperature values
  \<open>T\<^sub>A\<close> and \<open>T\<^sub>B\<close> (the third ensemble value), a completed \<open>replexerSwap\<close> swaps the
  system clocks and the event counts, multiplies every velocity of \<open>A\<close> (as brought up
  to date) by \<open>scale1 = sqrt (T\<^sub>B / T\<^sub>A)\<close> and every velocity of \<open>B\<close> by \<open>1 / scale1\<close>,
  rescales the times of \<open>A\<close>'s scheduler by \<open>1 / scale1\<close> and those of \<open>B\<close>'s by \<open>scale1\<close>,
  and rebuilds the \<open>SYSTEM\<close> events of both. Afterwards the kinetic energy of \<open>A\<close> is
  \<open>T\<^sub>B / T\<^sub>A\<close> times what it was, and that of \<open>B\<close> is \<open>T\<^sub>A / T\<^sub>B\<close> times what it was.
\<close>

theorem replexer_swap_effect:
  assumes swap: "replexerSwap ops A B = Some (A', B')"
    and TA: "0 < vnth (getEnsembleVals (ensemble A)) 2"
    and TB: "0 < vnth (getEnsembleVals (ensemble B)) 2"
    and psA: "psA = snd (updateAllParticles ops (dynamics A) (systemTime A) (particles A))"
    and psB: "psB = snd (updateAllParticles ops (dynamics B) (systemTime B) (particles B))"
    and scale1: "scale1 = sqrt (vnth (getEnsembleVals (ensemble B)) 2
                                / vnth (getEnsembleVals (ensemble A)) 2)"
  shows "systemTime A' = systemTime B \<and> systemTime B' = systemTime A
    \<and> eventCount A' = eventCount B \<and> eventCount B' = eventCount A
    \<and> particles A' = scale_velocities scale1 psA
    \<and> particles B' = scale_velocities (1 / scale1) psB
    \<and> (\<exists>schA schB. ptrScheduler A = Some schA \<and> ptrScheduler B = Some schB
          \<and> ptrScheduler A' = Some (rebuildSystemEvents (systems A') (length psA)
                                      (rescaleTimes (1 / scale1) schA))
          \<and> ptrScheduler B' = Some (rebuildSystemEvents (systems B') (length psB)
                                      (rescaleTimes scale1 schB)))
    \<and> kineticEnergy mass (particles A')
        = vnth (getEnsembleVals (ensemble B)) 2 / vnth (getEnsembleVals (ensemble A)) 2
          * kineticEnergy mass psA
    \<and> kineticEnergy mass (particles B')
        = vnth (getEnsembleVals (ensemble A)) 2 / vnth (getEnsembleVals (ensemble B)) 2
          * kineticEnergy mass psB"
proof -
  obtain d1 where u1: "updateAllParticles ops (dynamics A) (systemTime A) (particles A) = (d1, psA)"
    using psA by (cases "updateAllParticles ops (dynamics A) (systemTime A) (particles A)") simp
  obtain d2 where u2: "updateAllParticles ops (dynamics B) (systemTime B) (particles B) = (d2, psB)"
    using psB by (cases "updateAllParticles ops (dynamics B) (systemTime B) (particles B)") simp
  from swap u1 u2 scale1 obtain sys1 sys2 d1' d2' schA schB plugs1 plugs2 where
    sch: "ptrScheduler A = Some schA" "ptrScheduler B = Some schB"
    and A': "A' = A\<lparr>systemTime := systemTime B, eventCount := eventCount B,
                    systems := sys1, dynamics := d1',
                    particles := scale_velocities scale1 psA,
                    ptrScheduler := Some (rebuildSystemEvents sys1 (length psA)
                                            (rescaleTimes (1 / scale1) schA)),
                    outputPlugins := plugs1, ensemble := ensemble B\<rparr>"
    and B': "B' = B\<lparr>systemTime := systemTime A, eventCount := eventCount A,
                    systems := sys2, dynamics := d2',
                    particles := scale_velocities (1 / scale1) psB,
                    ptrScheduler := Some (rebuildSystemEvents sys2 (length psB)
                                            (rescaleTimes scale1 schB)),
                    outputPlugins := plugs2, ensemble := ensemble A\<rparr>"
    by (auto simp: replexerSwap_def Let_def split: option.splits prod.splits)
  have keA: "kineticEnergy mass (scale_velocities scale1 psA)
      = vnth (getEnsembleVals (ensemble B)) 2 / vnth (getEnsembleVals (ensemble A)) 2
        * kineticEnergy mass psA"
    unfolding kineticEnergy_scale scale1 by (simp only: sqrt_ratio_square(1) [OF TA TB])
  have keB: "kineticEnergy mass (scale_velocities (1 / scale1) psB)
      = vnth (getEnsembleVals (ensemble A)) 2 / vnth (getEnsembleVals (ensemble B)) 2
        * kineticEnergy mass psB"
    unfolding kineticEnergy_scale scale1 by (simp only: sqrt_ratio_square(2) [OF TA TB])
  show ?thesis
    using sch keA keB by (simp add: A' B')
qed


lemma replicas_swap:
  "replexerSwap replexOps simCold simHot =
     Some (simCold\<lparr>systemTime := 20, eventCount := 200,
                   particles := [part0\<lparr>getVelocity := (2, 0, 0)\<rparr>],
                   ptrScheduler := Some \<lparr>sorter = [coldEvent\<lparr>se_time := 3\<rparr>]\<rparr>,
                   ensemble := \<lparr>getEnsembleVals = (1, 125, 4)\<rparr>\<rparr>,
           simHot\<lparr>systemTime := 10, eventCount := 100,
                  particles := [partFast\<lparr>getVelocity := (3 / 2, 0, 0)\<rparr>],
                  ptrScheduler := Some \<lparr>sorter = [hotEvent\<lparr>se_time := 2\<rparr>]\<rparr>,
                  ensemble := \<lparr>getEnsembleVals = (1, 125, 1)\<rparr>\<rparr>)"
  by (simp add: replexerSwap_def replexOps_def simCold_def simHot_def simBox_def Let_def
      replex_plugin_def scale_velocities_def vscale_def rescaleTimes_def rebuildSystemEvents_def
      part0_def partFast_def coldEvent_def hotEvent_def)

theorem replexer_swap_effect_witness:
  "\<exists>A' B'. replexerSwap replexOps simCold simHot = Some (A', B')
     \<and> systemTime A' = 20 \<and> systemTime B' = 10 \<and> eventCount A' = 200 \<and> eventCount B' = 100
     \<and> map getVelocity (particles A') = [(2, 0, 0)]
     \<and> map getVelocity (particles B') = [(3 / 2, 0, 0)]
     \<and> kineticEnergy oneMass (particles A') = 4 * kineticEnergy oneMass (particles simCold)
     \<and> kineticEnergy oneMass (particles B') = kineticEnergy oneMass (particles simHot) / 4"
proof -
  have TA: "0 < vnth (getEnsembleVals (ensemble simCold)) 2"
    and TB: "0 < vnth (getEnsembleVals (ensemble simHot)) 2"
    by (simp_all add: simCold_def simHot_def)
  have ratio: "vnth (getEnsembleVals (ensemble simHot)) 2 / vnth (getEnsembleVals (ensemble simCold)) 2 = 4"
    "vnth (getEnsembleVals (ensemble simCold)) 2 / vnth (getEnsembleVals (ensemble simHot)) 2 = 1 / 4"
    by (simp_all add: simCold_def simHot_def)
  have upd: "snd (updateAllParticles replexOps (dynamics simCold) (systemTime simCold) (particles simCold))
      = particles simCold"
    "snd (updateAllParticles replexOps (dynamics simHot) (systemTime simHot) (particles simHot))
      = particles simHot"
    by (simp_all add: replexOps_def)
  note eff = replexer_swap_effect [OF replicas_swap TA TB upd(1) [symmetric] upd(2) [symmetric] refl,
      of oneMass, unfolded ratio]
  have ps: "particles simCold = [part0]" "particles simHot = [partFast]"
    by (simp_all add: simCold_def simHot_def)
  from eff show ?thesis
    unfolding replicas_swap
    by (simp add: ps scale_velocities_def vscale_def part0_def partFast_def)
qed

text \<open>
  Claim C4 as stated has the kinetic energy of \<open>A\<close> after the exchange equal to that of
  \<open>B\<close> before it. For a replica at temperature 1 with one particle of velocity
  \<open>(1, 0, 0)\<close> and a replica at temperature 4 with one particle of velocity \<open>(3, 0, 0)\<close>,
  both of mass 1, the first ends with the kinetic energy \<open>2\<close>; the second had \<open>9 / 2\<close>.
\<close>

theorem kinetic_energy_not_exchanged:
  "kineticEnergy oneMass (particles (fst (the (replexerSwap replexOps simCold simHot)))) = 2
   \<and> kineticEnergy oneMass (particles simHot) = 9 / 2
   \<and> kineticEnergy oneMass (particles (fst (the (replexerSwap replexOps simCold simHot))))
       \<noteq> kineticEnergy oneMass (particles simHot)"
  unfolding replicas_swap
  by (simp add: kineticEnergy_def oneMass_def vnrm2_def simHot_def partFast_def part0_def)

section \<open>The sentinel past the apex\<close>

text \<open>
  Claim C10. When \<open>GParabolaSentinel::runEvent\<close> recomputes the sentinel event of a
  particle and finds the time \<open>HUGE_VAL\<close>, all it does beyond bringing the particle up to
  date is the scheduler's \<open>fullUpdate\<close> of the particle: the clock \<open>dSysTime\<close>, the
  accumulator \<open>freestreamAcc\<close> and what \<open>Sim->stream\<close> advances are as before, the scheduler
  is the one \<open>fullUpdate\<close> gives for the scheduler as it was (\<open>stream\<close> is not applied to
  it), and the particle's state is its state brought up to date (the parabola is not
  enforced).
\<close>

theorem sentinel_past_apex:
  assumes ID: "ID < length (particleList sim)"
    and up: "up = updateParticle ops (sd_env sim) (dSysTime sim)"
    and huge: "getParabolaSentinelTime ops (sd_env sim) (up (up (particleList sim ! ID))) = HUGE_VAL"
    and streams: "only_streams ops"
  shows "\<exists>sim'. GParabolaSentinel_runEvent ops sim ID = Some sim'
    \<and> sim' = full_update ops (sim\<lparr>particleList := (particleList sim)[ID := up (particleList sim ! ID)]\<rparr>) ID
    \<and> dSysTime sim' = dSysTime sim
    \<and> freestreamAcc sim' = freestreamAcc sim
    \<and> sd_env sim' = sd_env sim
    \<and> sd_scheduler sim'
        = fst (fullUpdate ops (sim\<lparr>particleList := (particleList sim)[ID := up (particleList sim ! ID)]\<rparr>) ID)
    \<and> particleList sim' ! ID = up (particleList sim ! ID)"
proof -
  let ?p = "particleList sim ! ID"
  let ?s1 = "sim\<lparr>particleList := (particleList sim)[ID := up ?p]\<rparr>"
  from streams have idem: "up (up q) = up q" for q
    by (simp add: only_streams_def up)
  have s1: "update_particle ops sim ID = ?s1"
    by (simp add: update_particle_def up)
  have s2: "update_particle ops ?s1 ID = ?s1"
    using ID by (simp add: update_particle_def up [symmetric] idem)
  have ev: "GParabolaSentinel_getEvent ops ?s1 ID
      = (\<lparr>ge_particle = ID, ge_dt = HUGE_VAL, ge_type = VIRTUAL_PARABOLA\<rparr>, ?s1)"
    using ID huge by (simp add: GParabolaSentinel_getEvent_def s2 Let_def idem)
  have run: "GParabolaSentinel_runEvent ops sim ID = Some (full_update ops ?s1 ID)"
    using ID by (simp add: GParabolaSentinel_runEvent_def s1 ev Let_def)
  obtain sch ps where fu: "fullUpdate ops ?s1 ID = (sch, ps)"
    by (cases "fullUpdate ops ?s1 ID")
  from streams have "\<forall>i < length (particleList ?s1).
      snd (fullUpdate ops ?s1 ID) ! i = particleList ?s1 ! i
      \<or> snd (fullUpdate ops ?s1 ID) ! i
          = updateParticle ops (sd_env ?s1) (dSysTime ?s1) (particleList ?s1 ! i)"
    unfolding only_streams_def by blast
  moreover have "ID < length (particleList ?s1)" using ID by simp
  ultimately have "snd (fullUpdate ops ?s1 ID) ! ID = particleList ?s1 ! ID
      \<or> snd (fullUpdate ops ?s1 ID) ! ID
          = updateParticle ops (sd_env ?s1) (dSysTime ?s1) (particleList ?s1 ! ID)"
    by blast
  then have "ps ! ID = up ?p"
    using ID fu by (auto simp: up [symmetric] idem)
  then show ?thesis
    using run fu by (simp add: full_update_def)
qed


lemma gravityOps_only_streams: "only_streams gravityOps"
  by (simp add: only_streams_def gravityOps_def)

theorem sentinel_past_apex_witness:
  "GParabolaSentinel_runEvent gravityOps (simGravity (0, 0, - 1)) 0
     = Some ((simGravity (0, 0, - 1))\<lparr>sd_scheduler := 1\<rparr>)"
proof -
  have up: "(\<lambda>q. q) = updateParticle gravityOps (sd_env (simGravity (0, 0, - 1)))
      (dSysTime (simGravity (0, 0, - 1)))"
    by (simp add: gravityOps_def)
  have len: "0 < length (particleList (simGravity (0, 0, - 1)))"
    by (simp add: simGravity_def)
  have huge: "getParabolaSentinelTime gravityOps (sd_env (simGravity (0, 0, - 1)))
      (particleList (simGravity (0, 0, - 1)) ! 0) = HUGE_VAL"
    by (simp add: gravityOps_def simGravity_def)
  from sentinel_past_apex [OF len up huge gravityOps_only_streams]
  show ?thesis
    by (simp add: full_update_def gravityOps_def simGravity_def)
qed

lemma sentinel_before_apex_example:
  "GParabolaSentinel_runEvent gravityOps (simGravity (0, 0, 4)) 0
     = Some ((simGravity (0, 0, 0))\<lparr>dSysTime := 7, freestreamAcc := Finite 3, sd_scheduler := 1\<rparr>)"
  by (simp add: GParabolaSentinel_runEvent_def GParabolaSentinel_getEvent_def update_particle_def
      full_update_def gravityOps_def simGravity_def Let_def)

section \<open>The capture map at a dumbbell event\<close>

text \<open>
  Claim C2. At an event run by \<open>IDumbbells::runEvent\<close>, a \<open>CORE\<close> event leaves the capture map
  as it is, a \<open>WELL_IN\<close> event inserts the pair, a \<open>WELL_OUT\<close> event removes it, and every
  other event type throws; so the capture map changes only at \<open>WELL_IN\<close> and \<open>WELL_OUT\<close>
  events.
\<close>

theorem capture_map_changes:
  "(ev_type iEvent = CORE \<longrightarrow>
      (\<exists>sim'. IDumbbells_runEvent ops intr sim p1 p2 iEvent = Inr (intr, sim')))
   \<and> (ev_type iEvent = WELL_IN \<longrightarrow>
      (\<exists>sim'. IDumbbells_runEvent ops intr sim p1 p2 iEvent
         = Inr (intr\<lparr>captureMap := insert (cmKey p1 p2) (captureMap intr)\<rparr>, sim')))
   \<and> (ev_type iEvent = WELL_OUT \<longrightarrow>
      (\<exists>sim'. IDumbbells_runEvent ops intr sim p1 p2 iEvent
         = Inr (intr\<lparr>captureMap := captureMap intr - {cmKey p1 p2}\<rparr>, sim')))
   \<and> (ev_type iEvent \<notin> {CORE, WELL_IN, WELL_OUT} \<longrightarrow>
      (\<exists>e. IDumbbells_runEvent ops intr sim p1 p2 iEvent = Inl e))
   \<and> (\<forall>intr' sim'. IDumbbells_runEvent ops intr sim p1 p2 iEvent = Inr (intr', sim')
         \<and> captureMap intr' \<noteq> captureMap intr \<longrightarrow> ev_type iEvent \<in> {WELL_IN, WELL_OUT})"
proof (intro conjI impI allI)
  assume "ev_type iEvent = CORE"
  then show "\<exists>sim'. IDumbbells_runEvent ops intr sim p1 p2 iEvent = Inr (intr, sim')"
    by (simp add: IDumbbells_runEvent_def Let_def split: prod.splits)
next
  assume "ev_type iEvent = WELL_IN"
  then show "\<exists>sim'. IDumbbells_runEvent ops intr sim p1 p2 iEvent
      = Inr (intr\<lparr>captureMap := insert (cmKey p1 p2) (captureMap intr)\<rparr>, sim')"
    by (simp add: IDumbbells_runEvent_def Let_def addToCaptureMap_def)
next
  assume "ev_type iEvent = WELL_OUT"
  then show "\<exists>sim'. IDumbbells_runEvent ops intr sim p1 p2 iEvent
      = Inr (intr\<lparr>captureMap := captureMap intr - {cmKey p1 p2}\<rparr>, sim')"
    by (simp add: IDumbbells_runEvent_def Let_def removeFromCaptureMap_def)
next
  assume "ev_type iEvent \<notin> {CORE, WELL_IN, WELL_OUT}"
  then show "\<exists>e. IDumbbells_runEvent ops intr sim p1 p2 iEvent = Inl e"
    by (cases "ev_type iEvent") (simp_all add: IDumbbells_runEvent_def)
next
  fix intr' sim'
  assume h: "IDumbbells_runEvent ops intr sim p1 p2 iEvent = Inr (intr', sim')
      \<and> captureMap intr' \<noteq> captureMap intr"
  show "ev_type iEvent \<in> {WELL_IN, WELL_OUT}"
  proof (cases "ev_type iEvent")
    case CORE
    with h show ?thesis
      by (auto simp: IDumbbells_runEvent_def Let_def split: prod.splits)
  qed (use h in \<open>simp_all add: IDumbbells_runEvent_def\<close>)
qed

theorem capture_map_changes_witness:
  "(\<exists>sim'. IDumbbells_runEvent dumbbellOps dumbbells (simGravity (0, 0, 0)) 1 0 (pairEvent CORE)
       = Inr (dumbbells, sim'))
   \<and> (\<exists>sim'. IDumbbells_runEvent dumbbellOps dumbbells (simGravity (0, 0, 0)) 1 0 (pairEvent WELL_IN)
       = Inr (dumbbells\<lparr>captureMap := {(0, 1), (2, 3)}\<rparr>, sim'))
   \<and> (\<exists>sim'. IDumbbells_runEvent dumbbellOps dumbbells (simGravity (0, 0, 0)) 3 2 (pairEvent WELL_OUT)
       = Inr (dumbbells\<lparr>captureMap := {}\<rparr>, sim'))
   \<and> (\<exists>e. IDumbbells_runEvent dumbbellOps dumbbells (simGravity (0, 0, 0)) 1 0 (pairEvent BOUNCE)
       = Inl e)"
proof -
  have ty: "ev_type (pairEvent ty) = ty" for ty by (simp add: pairEvent_def)
  have cm: "captureMap dumbbells = {(2, 3)}" by (simp add: dumbbells_def)
  note c = capture_map_changes [of _ dumbbellOps dumbbells "simGravity (0, 0, 0)", unfolded cm]
  from c [of "pairEvent CORE" 1 0]
  have 1: "\<exists>sim'. IDumbbells_runEvent dumbbellOps dumbbells (simGravity (0, 0, 0)) 1 0 (pairEvent CORE)
       = Inr (dumbbells, sim')"
    by (simp add: ty)
  from c [of "pairEvent WELL_IN" 1 0]
  have 2: "\<exists>sim'. IDumbbells_runEvent dumbbellOps dumbbells (simGravity (0, 0, 0)) 1 0 (pairEvent WELL_IN)
       = Inr (dumbbells\<lparr>captureMap := {(0, 1), (2, 3)}\<rparr>, sim')"
    by (simp add: ty cmKey_def)
  from c [of "pairEvent WELL_OUT" 3 2]
  have 3: "\<exists>sim'. IDumbbells_runEvent dumbbellOps dumbbells (simGravity (0, 0, 0)) 3 2 (pairEvent WELL_OUT)
       = Inr (dumbbells\<lparr>captureMap := {}\<rparr>, sim')"
    by (simp add: ty cmKey_def)
  from c [of "pairEvent BOUNCE" 1 0]
  have 4: "\<exists>e. IDumbbells_runEvent dumbbellOps dumbbells (simGravity (0, 0, 0)) 1 0 (pairEvent BOUNCE)
       = Inl e"
    by (simp add: ty)
  from 1 2 3 4 show ?thesis by blast
qed

section \<open>Moving a particle between cells\<close>

lemma fwd_cong: "fwd nx h xs \<Longrightarrow> \<forall>x\<in>set xs. nx' x = nx x \<Longrightarrow> fwd nx' h xs"
  by (induction xs arbitrary: h) auto

lemma bwd_cong: "bwd pv p xs \<Longrightarrow> \<forall>x\<in>set xs. pv' x = pv x \<Longrightarrow> bwd pv' p xs"
  by (induction xs arbitrary: p) auto

lemma fwd_head: "fwd nx h xs \<Longrightarrow> h = (if xs = [] then - 1 else int (hd xs))"
  by (cases xs) auto

lemma fwd_next: "fwd nx h (as @ x # bs) \<Longrightarrow> nx x = (if bs = [] then - 1 else int (hd bs))"
  by (induction as arbitrary: h) (auto dest: fwd_head)

lemma bwd_prev: "bwd pv p (as @ x # bs) \<Longrightarrow> pv x = (if as = [] then p else int (last as))"
  by (induction as arbitrary: p) auto

lemma fwd_tail: "fwd nx h (as @ bs) \<Longrightarrow> \<exists>h'. fwd nx h' bs"
  by (induction as arbitrary: h) auto

lemma fwd_remove:
  assumes "fwd nx h (as @ x # bs)" and "distinct (as @ x # bs)"
    and "\<forall>y\<in>set (as @ bs). (as = [] \<or> y \<noteq> last as) \<longrightarrow> nx' y = nx y"
    and "as \<noteq> [] \<longrightarrow> nx' (last as) = nx x"
  shows "fwd nx' (if as = [] then nx x else h) (as @ bs)"
  using assms
proof (induction as arbitrary: h)
  case Nil
  then have "fwd nx (nx x) bs" by simp
  moreover from Nil have "\<forall>y\<in>set bs. nx' y = nx y" by simp
  ultimately show ?case by (simp add: fwd_cong [of nx _ bs nx'])
next
  case (Cons a as)
  from Cons.prems(1) have h: "h = int a" and rest: "fwd nx (nx a) (as @ x # bs)" by simp_all
  show ?case
  proof (cases "as = []")
    case True
    with rest have "fwd nx (nx x) bs" by simp
    moreover from Cons.prems(2,3) True have "\<forall>y\<in>set bs. nx' y = nx y" by auto
    ultimately have "fwd nx' (nx x) bs" by (rule fwd_cong)
    moreover from Cons.prems(4) True have "nx' a = nx x" by simp
    ultimately show ?thesis using h True by simp
  next
    case False
    with Cons.prems(2) have ne: "a \<noteq> last as" by auto
    with Cons.prems(3) False have a: "nx' a = nx a" by simp
    have "fwd nx' (if as = [] then nx x else nx a) (as @ bs)"
    proof (rule Cons.IH [OF rest])
      show "distinct (as @ x # bs)" using Cons.prems(2) by simp
      show "\<forall>y\<in>set (as @ bs). (as = [] \<or> y \<noteq> last as) \<longrightarrow> nx' y = nx y"
        using Cons.prems(3) False by auto
      show "as \<noteq> [] \<longrightarrow> nx' (last as) = nx x"
        using Cons.prems(4) False by simp
    qed
    with False a h show ?thesis by simp
  qed
qed

lemma bwd_remove:
  assumes "bwd pv p (as @ x # bs)" and "distinct (as @ x # bs)"
    and "\<forall>y\<in>set (as @ bs). (bs = [] \<or> y \<noteq> hd bs) \<longrightarrow> pv' y = pv y"
    and "bs \<noteq> [] \<longrightarrow> pv' (hd bs) = pv x"
  shows "bwd pv' p (as @ bs)"
  using assms
proof (induction as arbitrary: p)
  case Nil
  show ?case
  proof (cases bs)
    case Nil
    then show ?thesis by simp
  next
    case (Cons b bs')
    from Nil.prems(1) Cons have px: "pv x = p" and pb: "pv b = int x" and rest: "bwd pv (int b) bs'"
      by simp_all
    from Nil.prems(2,3) Cons have "\<forall>y\<in>set bs'. pv' y = pv y" by auto
    with rest have "bwd pv' (int b) bs'" by (rule bwd_cong)
    moreover from Nil.prems(4) Cons px have "pv' b = p" by simp
    ultimately show ?thesis using Cons by simp
  qed
next
  case (Cons a as)
  from Cons.prems(1) have pa: "pv a = p" and rest: "bwd pv (int a) (as @ x # bs)" by simp_all
  from Cons.prems(2) have "bs = [] \<or> a \<noteq> hd bs" by (cases bs) auto
  with Cons.prems(3) have a: "pv' a = pv a" by auto
  have "bwd pv' (int a) (as @ bs)"
  proof (rule Cons.IH [OF rest])
    show "distinct (as @ x # bs)" using Cons.prems(2) by simp
    show "\<forall>y\<in>set (as @ bs). (bs = [] \<or> y \<noteq> hd bs) \<longrightarrow> pv' y = pv y"
      using Cons.prems(3) by auto
    show "bs \<noteq> [] \<longrightarrow> pv' (hd bs) = pv x" using Cons.prems(4) .
  qed
  with a pa show ?case by simp
qed


lemma bwd_rehead:
  assumes "bwd pv p xs" and "xs \<noteq> [] \<longrightarrow> pv' (hd xs) = p'"
    and "\<forall>y\<in>set (tl xs). pv' y = pv y"
  shows "bwd pv' p' xs"
proof (cases xs)
  case Nil
  then show ?thesis by simp
next
  case (Cons x xs')
  with assms(1) have "bwd pv (int x) xs'" by simp
  moreover from assms(3) Cons have "\<forall>y\<in>set xs'. pv' y = pv y" by simp
  ultimately have "bwd pv' (int x) xs'" by (rule bwd_cong)
  with assms(2) Cons show ?thesis by simp
qed

lemma nth_upd_fields:
  fixes xs :: "partCEntry list"
  assumes "j < length xs"
  shows "next (xs[i := (xs ! i)\<lparr>next := v\<rparr>] ! j) = (if i = j then v else next (xs ! j))"
    and "prev (xs[i := (xs ! i)\<lparr>next := v\<rparr>] ! j) = prev (xs ! j)"
    and "cell (xs[i := (xs ! i)\<lparr>next := v\<rparr>] ! j) = cell (xs ! j)"
    and "next (xs[i := (xs ! i)\<lparr>prev := v\<rparr>] ! j) = next (xs ! j)"
    and "prev (xs[i := (xs ! i)\<lparr>prev := v\<rparr>] ! j) = (if i = j then v else prev (xs ! j))"
    and "cell (xs[i := (xs ! i)\<lparr>prev := v\<rparr>] ! j) = cell (xs ! j)"
    and "next (xs[i := (xs ! i)\<lparr>cell := v\<rparr>] ! j) = next (xs ! j)"
    and "prev (xs[i := (xs ! i)\<lparr>cell := v\<rparr>] ! j) = prev (xs ! j)"
    and "cell (xs[i := (xs ! i)\<lparr>cell := v\<rparr>] ! j) = (if i = j then v else cell (xs ! j))"
  using assms by (cases "i = j"; simp)+

lemma nth_upd_list:
  fixes cs :: "cellStruct list"
  assumes "j < length cs"
  shows "list (cs[i := (cs ! i)\<lparr>list := v\<rparr>] ! j) = (if i = j then v else list (cs ! j))"
  using assms by (cases "i = j"; simp)

lemma removeFromCell_spec:
  assumes ID: "ID < length (partCellData st)"
    and pv: "prev (partCellData st ! ID) = (if as = [] then - 1 else int (last as))"
    and nx: "next (partCellData st ! ID) = (if bs = [] then - 1 else int (hd bs))"
    and ce: "cell (partCellData st ! ID) = int c0"
    and c0: "c0 < length (cells st)"
    and la: "as \<noteq> [] \<longrightarrow> last as < length (partCellData st) \<and> last as \<noteq> ID"
    and hb: "bs \<noteq> [] \<longrightarrow> hd bs < length (partCellData st)"
  shows "\<exists>st1. removeFromCell debug (int ID) st = Some st1
    \<and> length (partCellData st1) = length (partCellData st)
    \<and> length (cells st1) = length (cells st)
    \<and> (\<forall>y<length (partCellData st). next (partCellData st1 ! y)
          = (if as \<noteq> [] \<and> y = last as then next (partCellData st ! ID)
             else next (partCellData st ! y)))
    \<and> (\<forall>y<length (partCellData st). prev (partCellData st1 ! y)
          = (if bs \<noteq> [] \<and> y = hd bs then prev (partCellData st ! ID)
             else prev (partCellData st ! y)))
    \<and> (\<forall>y<length (partCellData st). cell (partCellData st1 ! y)
          = (if debug \<and> y = ID then - 1 else cell (partCellData st ! y)))
    \<and> (\<forall>c<length (cells st). list (cells st1 ! c)
          = (if as = [] \<and> c = c0 then next (partCellData st ! ID) else list (cells st ! c)))"
proof -
  let ?pcd = "partCellData st"
  let ?e = "?pcd ! ID"
  have e: "part_at st (int ID) = Some ?e"
    using ID by (simp add: part_at_def in_range_def)
  define st1 where "st1 =
    (if as = [] then st\<lparr>cells := (cells st)[c0 := (cells st ! c0)\<lparr>list := next ?e\<rparr>]\<rparr>
     else st\<lparr>partCellData := ?pcd[last as := (?pcd ! last as)\<lparr>next := next ?e\<rparr>]\<rparr>)"
  have step1: "(if prev ?e \<noteq> - 1 then upd_part (prev ?e) (\<lambda>x. x\<lparr>next := next ?e\<rparr>) st
       else upd_cell (cell ?e) (\<lambda>c. c\<lparr>list := next ?e\<rparr>) st) = Some st1"
    using pv ce c0 la by (auto simp: st1_def upd_part_def upd_cell_def in_range_def)
  have len1: "length (partCellData st1) = length ?pcd" "length (cells st1) = length (cells st)"
    by (simp_all add: st1_def)
  have e1: "part_at st1 (int ID) = Some ?e"
    using ID la by (auto simp: part_at_def in_range_def st1_def)
  define st2 where "st2 =
    (if bs = [] then st1
     else st1\<lparr>partCellData := (partCellData st1)
            [hd bs := (partCellData st1 ! hd bs)\<lparr>prev := prev ?e\<rparr>]\<rparr>)"
  have step2: "(if next ?e \<noteq> - 1 then upd_part (next ?e) (\<lambda>x. x\<lparr>prev := prev ?e\<rparr>) st1
       else Some st1) = Some st2"
    using nx hb len1 by (auto simp: st2_def upd_part_def in_range_def)
  define st3 where "st3 =
    (if debug then st2\<lparr>partCellData := (partCellData st2)
            [ID := (partCellData st2 ! ID)\<lparr>cell := - 1\<rparr>]\<rparr> else st2)"
  have len2: "length (partCellData st2) = length ?pcd" "length (cells st2) = length (cells st)"
    using len1 by (simp_all add: st2_def)
  have step3: "(if debug then upd_part (int ID) (\<lambda>x. x\<lparr>cell := - 1\<rparr>) st2 else Some st2) = Some st3"
    using ID len2 by (simp add: st3_def upd_part_def in_range_def)
  have run: "removeFromCell debug (int ID) st = Some st3"
    by (simp add: removeFromCell_def e step1 e1 step2 step3)
  have len3: "length (partCellData st3) = length ?pcd" "length (cells st3) = length (cells st)"
    using len2 by (simp_all add: st3_def)
  have f1: "next (partCellData st1 ! y)
        = (if as \<noteq> [] \<and> y = last as then next ?e else next (?pcd ! y))"
      "prev (partCellData st1 ! y) = prev (?pcd ! y)"
      "cell (partCellData st1 ! y) = cell (?pcd ! y)"
    if "y < length ?pcd" for y
    using that by (auto simp: st1_def nth_upd_fields)
  have f2: "next (partCellData st2 ! y) = next (partCellData st1 ! y)"
      "prev (partCellData st2 ! y)
        = (if bs \<noteq> [] \<and> y = hd bs then prev ?e else prev (partCellData st1 ! y))"
      "cell (partCellData st2 ! y) = cell (partCellData st1 ! y)"
    if "y < length ?pcd" for y
    using that len1 by (auto simp: st2_def nth_upd_fields)
  have f3: "next (partCellData st3 ! y) = next (partCellData st2 ! y)"
      "prev (partCellData st3 ! y) = prev (partCellData st2 ! y)"
      "cell (partCellData st3 ! y)
        = (if debug \<and> y = ID then - 1 else cell (partCellData st2 ! y))"
    if "y < length ?pcd" for y
    using that len2 by (auto simp: st3_def nth_upd_fields)
  have nx3: "\<forall>y<length ?pcd. next (partCellData st3 ! y)
      = (if as \<noteq> [] \<and> y = last as then next ?e else next (?pcd ! y))"
    by (simp add: f1 f2 f3)
  have pv3: "\<forall>y<length ?pcd. prev (partCellData st3 ! y)
      = (if bs \<noteq> [] \<and> y = hd bs then prev ?e else prev (?pcd ! y))"
    by (simp add: f1 f2 f3)
  have ce3: "\<forall>y<length ?pcd. cell (partCellData st3 ! y)
      = (if debug \<and> y = ID then - 1 else cell (?pcd ! y))"
    by (simp add: f1 f2 f3)
  have "cells st3 = cells st1" by (simp add: st3_def st2_def)
  then have li3: "\<forall>c<length (cells st). list (cells st3 ! c)
      = (if as = [] \<and> c = c0 then next ?e else list (cells st ! c))"
    by (auto simp: st1_def nth_upd_list)
  from run len3 nx3 pv3 ce3 li3 show ?thesis by blast
qed


lemma addToCell_spec:
  assumes ID: "ID < length (partCellData st)"
    and c: "c < length (cells st)"
    and h: "list (cells st ! c) = (if xs = [] then - 1 else int (hd xs))"
    and hx: "xs \<noteq> [] \<longrightarrow> hd xs < length (partCellData st) \<and> hd xs \<noteq> ID"
  shows "\<exists>st2. addToCell (int ID) (int c) st = Some st2
    \<and> length (partCellData st2) = length (partCellData st)
    \<and> length (cells st2) = length (cells st)
    \<and> (\<forall>y<length (partCellData st). next (partCellData st2 ! y)
          = (if y = ID then list (cells st ! c) else next (partCellData st ! y)))
    \<and> (\<forall>y<length (partCellData st). prev (partCellData st2 ! y)
          = (if y = ID then - 1 else if xs \<noteq> [] \<and> y = hd xs then int ID
             else prev (partCellData st ! y)))
    \<and> (\<forall>y<length (partCellData st). cell (partCellData st2 ! y)
          = (if y = ID then int c else cell (partCellData st ! y)))
    \<and> (\<forall>c'<length (cells st). list (cells st2 ! c')
          = (if c' = c then int ID else list (cells st ! c')))"
proof -
  let ?pcd = "partCellData st"
  let ?h = "list (cells st ! c)"
  have c0: "cell_at st (int c) = Some (cells st ! c)"
    using c by (simp add: cell_at_def in_range_def)
  define st1 where "st1 =
    (if xs = [] then st
     else st\<lparr>partCellData := ?pcd[hd xs := (?pcd ! hd xs)\<lparr>prev := int ID\<rparr>]\<rparr>)"
  have step1: "(if ?h \<noteq> - 1 then upd_part ?h (\<lambda>e. e\<lparr>prev := int ID\<rparr>) st else Some st) = Some st1"
    using h hx by (auto simp: st1_def upd_part_def in_range_def)
  have len1: "length (partCellData st1) = length ?pcd" and cells1: "cells st1 = cells st"
    by (simp_all add: st1_def)
  have c1: "cell_at st1 (int c) = Some (cells st ! c)"
    using c by (simp add: cell_at_def in_range_def cells1)
  define st2 where "st2 = st1\<lparr>partCellData := (partCellData st1)
      [ID := (partCellData st1 ! ID)\<lparr>next := ?h\<rparr>]\<rparr>"
  have step2: "upd_part (int ID) (\<lambda>e. e\<lparr>next := ?h\<rparr>) st1 = Some st2"
    using ID len1 by (simp add: st2_def upd_part_def in_range_def)
  have len2: "length (partCellData st2) = length ?pcd" and cells2: "cells st2 = cells st"
    using len1 cells1 by (simp_all add: st2_def)
  define st3 where "st3 = st2\<lparr>cells := (cells st2)[c := (cells st2 ! c)\<lparr>list := int ID\<rparr>]\<rparr>"
  have step3: "upd_cell (int c) (\<lambda>c. c\<lparr>list := int ID\<rparr>) st2 = Some st3"
    using c cells2 by (simp add: st3_def upd_cell_def in_range_def)
  have len3: "length (partCellData st3) = length ?pcd" and pcd3: "partCellData st3 = partCellData st2"
    using len2 by (simp_all add: st3_def)
  define st4 where "st4 = st3\<lparr>partCellData := (partCellData st3)
      [ID := (partCellData st3 ! ID)\<lparr>prev := - 1\<rparr>]\<rparr>"
  have step4: "upd_part (int ID) (\<lambda>e. e\<lparr>prev := - 1\<rparr>) st3 = Some st4"
    using ID len3 by (simp add: st4_def upd_part_def in_range_def)
  have len4: "length (partCellData st4) = length ?pcd" and cells4: "cells st4 = cells st3"
    using len3 by (simp_all add: st4_def)
  define st5 where "st5 = st4\<lparr>partCellData := (partCellData st4)
      [ID := (partCellData st4 ! ID)\<lparr>cell := int c\<rparr>]\<rparr>"
  have step5: "upd_part (int ID) (\<lambda>e. e\<lparr>cell := int c\<rparr>) st4 = Some st5"
    using ID len4 by (simp add: st5_def upd_part_def in_range_def)
  have len5: "length (partCellData st5) = length ?pcd" and cells5: "cells st5 = cells st3"
    using len4 cells4 by (simp_all add: st5_def)
  have run: "addToCell (int ID) (int c) st = Some st5"
    by (simp add: addToCell_def c0 step1 c1 step2 step3 step4 step5)
  have f1: "next (partCellData st1 ! y) = next (?pcd ! y)"
      "prev (partCellData st1 ! y)
        = (if xs \<noteq> [] \<and> y = hd xs then int ID else prev (?pcd ! y))"
      "cell (partCellData st1 ! y) = cell (?pcd ! y)"
    if "y < length ?pcd" for y
    using that by (auto simp: st1_def nth_upd_fields)
  have f2: "next (partCellData st2 ! y) = (if y = ID then ?h else next (partCellData st1 ! y))"
      "prev (partCellData st2 ! y) = prev (partCellData st1 ! y)"
      "cell (partCellData st2 ! y) = cell (partCellData st1 ! y)"
    if "y < length ?pcd" for y
    using that len1 by (auto simp: st2_def nth_upd_fields)
  have f4: "next (partCellData st4 ! y) = next (partCellData st2 ! y)"
      "prev (partCellData st4 ! y) = (if y = ID then - 1 else prev (partCellData st2 ! y))"
      "cell (partCellData st4 ! y) = cell (partCellData st2 ! y)"
    if "y < length ?pcd" for y
    using that len2 by (auto simp: st4_def pcd3 nth_upd_fields)
  have f5: "next (partCellData st5 ! y) = next (partCellData st4 ! y)"
      "prev (partCellData st5 ! y) = prev (partCellData st4 ! y)"
      "cell (partCellData st5 ! y) = (if y = ID then int c else cell (partCellData st4 ! y))"
    if "y < length ?pcd" for y
    using that len4 by (auto simp: st5_def nth_upd_fields)
  have nx5: "\<forall>y<length ?pcd. next (partCellData st5 ! y)
      = (if y = ID then ?h else next (?pcd ! y))"
    by (simp add: f1 f2 f4 f5)
  have pv5: "\<forall>y<length ?pcd. prev (partCellData st5 ! y)
      = (if y = ID then - 1 else if xs \<noteq> [] \<and> y = hd xs then int ID else prev (?pcd ! y))"
    by (simp add: f1 f2 f4 f5)
  have ce5: "\<forall>y<length ?pcd. cell (partCellData st5 ! y)
      = (if y = ID then int c else cell (?pcd ! y))"
    by (simp add: f1 f2 f4 f5)
  have li5: "\<forall>c'<length (cells st). list (cells st5 ! c')
      = (if c' = c then int ID else list (cells st ! c'))"
    by (auto simp: cells5 st3_def cells2 nth_upd_list)
  have "length (cells st5) = length (cells st)"
    by (simp add: cells5 st3_def cells2)
  with run len5 nx5 pv5 ce5 li5 show ?thesis by blast
qed


lemma remove_chains:
  assumes ch: "chains st L" and c0: "c0 < length L" and split: "L ! c0 = as @ ID # bs"
  shows "\<exists>st1. removeFromCell debug (int ID) st = Some st1
    \<and> chains st1 (L[c0 := as @ bs])
    \<and> length (partCellData st1) = length (partCellData st)
    \<and> length (cells st1) = length (cells st)
    \<and> (\<forall>y<length (partCellData st). y \<noteq> ID \<longrightarrow>
          cell (partCellData st1 ! y) = cell (partCellData st ! y))
    \<and> (\<forall>y<length (partCellData st). y \<noteq> ID \<and> int y \<noteq> prev (partCellData st ! ID)
            \<and> int y \<noteq> next (partCellData st ! ID) \<longrightarrow>
          partCellData st1 ! y = partCellData st ! y)
    \<and> (\<forall>c<length (cells st). list (cells st1 ! c) = list (cells st ! c)
          \<or> list (cells st1 ! c) = next (partCellData st ! ID))"
proof -
  let ?pcd = "partCellData st"
  let ?nx = "\<lambda>x. next (?pcd ! x)"
  let ?pv = "\<lambda>x. prev (?pcd ! x)"
  let ?h = "list (cells st ! c0)"
  from ch have len: "length L = length (cells st)"
    and all: "\<And>c. c < length L \<Longrightarrow> dll ?pcd c (list (cells st ! c)) (L ! c)"
    by (simp_all add: chains_def)
  from all [OF c0] split have F: "fwd ?nx ?h (as @ ID # bs)"
    and B: "bwd ?pv (- 1) (as @ ID # bs)"
    and D: "distinct (as @ ID # bs)"
    and M: "\<forall>x\<in>set (as @ ID # bs). x < length ?pcd \<and> cell (?pcd ! x) = int c0"
    by (simp_all add: dll_def)
  from M have ID: "ID < length ?pcd" and ce: "cell (?pcd ! ID) = int c0" by simp_all
  have pv: "prev (?pcd ! ID) = (if as = [] then - 1 else int (last as))"
    using bwd_prev [OF B] .
  have nx: "next (?pcd ! ID) = (if bs = [] then - 1 else int (hd bs))"
    using fwd_next [OF F] .
  have la: "as \<noteq> [] \<longrightarrow> last as < length ?pcd \<and> last as \<noteq> ID"
    using M D by (auto simp: last_in_set)
  have hb: "bs \<noteq> [] \<longrightarrow> hd bs < length ?pcd"
    using M by (auto simp: hd_in_set)
  from c0 len have c0': "c0 < length (cells st)" by simp
  from removeFromCell_spec [OF ID pv nx ce c0' la hb, of debug]
  obtain st1 where run: "removeFromCell debug (int ID) st = Some st1"
    and lp: "length (partCellData st1) = length ?pcd"
    and lc: "length (cells st1) = length (cells st)"
    and nx1: "\<And>y. y < length ?pcd \<Longrightarrow> next (partCellData st1 ! y)
          = (if as \<noteq> [] \<and> y = last as then next (?pcd ! ID) else next (?pcd ! y))"
    and pv1: "\<And>y. y < length ?pcd \<Longrightarrow> prev (partCellData st1 ! y)
          = (if bs \<noteq> [] \<and> y = hd bs then prev (?pcd ! ID) else prev (?pcd ! y))"
    and ce1: "\<And>y. y < length ?pcd \<Longrightarrow> cell (partCellData st1 ! y)
          = (if debug \<and> y = ID then - 1 else cell (?pcd ! y))"
    and li1: "\<And>c. c < length (cells st) \<Longrightarrow> list (cells st1 ! c)
          = (if as = [] \<and> c = c0 then next (?pcd ! ID) else list (cells st ! c))"
    by blast
  let ?pcd1 = "partCellData st1"
  let ?nx1 = "\<lambda>x. next (?pcd1 ! x)"
  let ?pv1 = "\<lambda>x. prev (?pcd1 ! x)"
  have inr: "\<And>y. y \<in> set (as @ bs) \<Longrightarrow> y < length ?pcd \<and> y \<noteq> ID \<and> cell (?pcd ! y) = int c0"
    using M D by auto
  have "dll ?pcd1 c (list (cells st1 ! c)) (L[c0 := as @ bs] ! c)" if c: "c < length L" for c
  proof (cases "c = c0")
    case True
    have "fwd ?nx1 (if as = [] then ?nx ID else ?h) (as @ bs)"
    proof (rule fwd_remove [OF F D])
      show "\<forall>y\<in>set (as @ bs). (as = [] \<or> y \<noteq> last as) \<longrightarrow> ?nx1 y = ?nx y"
        using inr nx1 by auto
      show "as \<noteq> [] \<longrightarrow> ?nx1 (last as) = ?nx ID"
        using la nx1 by auto
    qed
    moreover have "list (cells st1 ! c0) = (if as = [] then ?nx ID else ?h)"
      using li1 [OF c0'] by simp
    ultimately have 1: "fwd ?nx1 (list (cells st1 ! c0)) (as @ bs)" by simp
    have 2: "bwd ?pv1 (- 1) (as @ bs)"
    proof (rule bwd_remove [OF B D])
      show "\<forall>y\<in>set (as @ bs). (bs = [] \<or> y \<noteq> hd bs) \<longrightarrow> ?pv1 y = ?pv y"
        using inr pv1 by auto
      show "bs \<noteq> [] \<longrightarrow> ?pv1 (hd bs) = ?pv ID"
        using hb pv1 by auto
    qed
    have 3: "distinct (as @ bs)" using D by simp
    have 4: "\<forall>x\<in>set (as @ bs). x < length ?pcd1 \<and> cell (?pcd1 ! x) = int c0"
      using inr ce1 lp by auto
    from 1 2 3 4 True c0 show ?thesis by (simp add: dll_def)
  next
    case False
    from all [OF c] have F': "fwd ?nx (list (cells st ! c)) (L ! c)"
      and B': "bwd ?pv (- 1) (L ! c)" and D': "distinct (L ! c)"
      and M': "\<forall>x\<in>set (L ! c). x < length ?pcd \<and> cell (?pcd ! x) = int c"
      by (simp_all add: dll_def)
    have out: "y \<notin> set (as @ ID # bs)" if "y \<in> set (L ! c)" for y
      using that M M' False by fastforce
    have same: "?nx1 y = ?nx y \<and> ?pv1 y = ?pv y \<and> cell (?pcd1 ! y) = cell (?pcd ! y)"
      if y: "y \<in> set (L ! c)" for y
    proof -
      from y M' have yl: "y < length ?pcd" by simp
      from out [OF y] have "y \<noteq> ID" "as \<noteq> [] \<longrightarrow> y \<noteq> last as" "bs \<noteq> [] \<longrightarrow> y \<noteq> hd bs"
        by (auto simp: last_in_set hd_in_set)
      then show ?thesis using nx1 [OF yl] pv1 [OF yl] ce1 [OF yl] by auto
    qed
    have 1: "fwd ?nx1 (list (cells st ! c)) (L ! c)"
      by (rule fwd_cong [OF F']) (simp add: same)
    have 2: "bwd ?pv1 (- 1) (L ! c)"
      by (rule bwd_cong [OF B']) (simp add: same)
    have 4: "\<forall>x\<in>set (L ! c). x < length ?pcd1 \<and> cell (?pcd1 ! x) = int c"
      using M' same lp by simp
    have "list (cells st1 ! c) = list (cells st ! c)"
      using li1 [of c] c len False by simp
    with 1 2 D' 4 False show ?thesis by (simp add: dll_def)
  qed
  then have "chains st1 (L[c0 := as @ bs])"
    using len lc by (simp add: chains_def)
  moreover have "\<forall>y<length ?pcd. y \<noteq> ID \<longrightarrow> cell (?pcd1 ! y) = cell (?pcd ! y)"
    using ce1 by simp
  moreover have "\<forall>y<length ?pcd. y \<noteq> ID \<and> int y \<noteq> prev (?pcd ! ID)
      \<and> int y \<noteq> next (?pcd ! ID) \<longrightarrow> ?pcd1 ! y = ?pcd ! y"
  proof (intro allI impI)
    fix y assume yl: "y < length ?pcd"
      and y: "y \<noteq> ID \<and> int y \<noteq> prev (?pcd ! ID) \<and> int y \<noteq> next (?pcd ! ID)"
    from y pv have "as \<noteq> [] \<longrightarrow> y \<noteq> last as" by auto
    moreover from y nx have "bs \<noteq> [] \<longrightarrow> y \<noteq> hd bs" by auto
    ultimately have "next (?pcd1 ! y) = next (?pcd ! y)" "prev (?pcd1 ! y) = prev (?pcd ! y)"
      "cell (?pcd1 ! y) = cell (?pcd ! y)"
      using nx1 [OF yl] pv1 [OF yl] ce1 [OF yl] y by auto
    then show "?pcd1 ! y = ?pcd ! y" by simp
  qed
  moreover have "\<forall>c<length (cells st). list (cells st1 ! c) = list (cells st ! c)
      \<or> list (cells st1 ! c) = next (?pcd ! ID)"
    using li1 by simp
  ultimately show ?thesis using run lp lc by blast
qed

lemma add_chains:
  assumes ch: "chains st L" and c: "c < length L" and ID: "ID < length (partCellData st)"
    and free: "\<forall>c'<length L. ID \<notin> set (L ! c')"
  shows "\<exists>st2. addToCell (int ID) (int c) st = Some st2
    \<and> chains st2 (L[c := ID # L ! c])
    \<and> length (partCellData st2) = length (partCellData st)
    \<and> length (cells st2) = length (cells st)
    \<and> cell (partCellData st2 ! ID) = int c
    \<and> (\<forall>y<length (partCellData st). y \<noteq> ID \<longrightarrow>
          cell (partCellData st2 ! y) = cell (partCellData st ! y))
    \<and> (\<forall>y<length (partCellData st). y \<noteq> ID \<and> int y \<noteq> list (cells st ! c) \<longrightarrow>
          partCellData st2 ! y = partCellData st ! y)"
proof -
  let ?pcd = "partCellData st"
  let ?nx = "\<lambda>x. next (?pcd ! x)"
  let ?pv = "\<lambda>x. prev (?pcd ! x)"
  let ?xs = "L ! c"
  let ?h = "list (cells st ! c)"
  from ch have len: "length L = length (cells st)"
    and all: "\<And>c. c < length L \<Longrightarrow> dll ?pcd c (list (cells st ! c)) (L ! c)"
    by (simp_all add: chains_def)
  from all [OF c] have F: "fwd ?nx ?h ?xs" and B: "bwd ?pv (- 1) ?xs" and D: "distinct ?xs"
    and M: "\<forall>x\<in>set ?xs. x < length ?pcd \<and> cell (?pcd ! x) = int c"
    by (simp_all add: dll_def)
  from free c have notin: "ID \<notin> set ?xs" by simp
  have h: "?h = (if ?xs = [] then - 1 else int (hd ?xs))"
    using fwd_head [OF F] .
  have hx: "?xs \<noteq> [] \<longrightarrow> hd ?xs < length ?pcd \<and> hd ?xs \<noteq> ID"
    using M notin by (auto simp: hd_in_set)
  from c len have c': "c < length (cells st)" by simp
  from addToCell_spec [OF ID c' h hx]
  obtain st2 where run: "addToCell (int ID) (int c) st = Some st2"
    and lp: "length (partCellData st2) = length ?pcd"
    and lc: "length (cells st2) = length (cells st)"
    and nx2: "\<And>y. y < length ?pcd \<Longrightarrow> next (partCellData st2 ! y)
          = (if y = ID then ?h else next (?pcd ! y))"
    and pv2: "\<And>y. y < length ?pcd \<Longrightarrow> prev (partCellData st2 ! y)
          = (if y = ID then - 1 else if ?xs \<noteq> [] \<and> y = hd ?xs then int ID
             else prev (?pcd ! y))"
    and ce2: "\<And>y. y < length ?pcd \<Longrightarrow> cell (partCellData st2 ! y)
          = (if y = ID then int c else cell (?pcd ! y))"
    and li2: "\<And>c'. c' < length (cells st) \<Longrightarrow> list (cells st2 ! c')
          = (if c' = c then int ID else list (cells st ! c'))"
    by blast
  let ?pcd2 = "partCellData st2"
  let ?nx2 = "\<lambda>x. next (?pcd2 ! x)"
  let ?pv2 = "\<lambda>x. prev (?pcd2 ! x)"
  have "dll ?pcd2 c' (list (cells st2 ! c')) (L[c := ID # ?xs] ! c')" if c'l: "c' < length L" for c'
  proof (cases "c' = c")
    case True
    have "fwd ?nx2 ?h ?xs"
      by (rule fwd_cong [OF F]) (use M notin nx2 in auto)
    then have 1: "fwd ?nx2 (int ID) (ID # ?xs)"
      using nx2 [OF ID] by simp
    have "bwd ?pv2 (int ID) ?xs"
    proof (rule bwd_rehead [OF B])
      show "?xs \<noteq> [] \<longrightarrow> ?pv2 (hd ?xs) = int ID"
        using hx pv2 by auto
      have "y \<noteq> hd ?xs" if "y \<in> set (tl ?xs)" for y
        using that D by (cases ?xs) auto
      moreover have "y \<in> set ?xs" if "y \<in> set (tl ?xs)" for y
        using that by (cases ?xs) auto
      ultimately show "\<forall>y\<in>set (tl ?xs). ?pv2 y = ?pv y"
        using M notin pv2 by auto
    qed
    then have 2: "bwd ?pv2 (- 1) (ID # ?xs)"
      using pv2 [OF ID] by simp
    have 3: "distinct (ID # ?xs)" using D notin by simp
    have 4: "\<forall>x\<in>set (ID # ?xs). x < length ?pcd2 \<and> cell (?pcd2 ! x) = int c"
      using M ID ce2 lp by auto
    have "list (cells st2 ! c) = int ID" using li2 [OF c'] by simp
    with 1 2 3 4 True c show ?thesis by (simp add: dll_def)
  next
    case False
    from all [OF c'l] have F': "fwd ?nx (list (cells st ! c')) (L ! c')"
      and B': "bwd ?pv (- 1) (L ! c')" and D': "distinct (L ! c')"
      and M': "\<forall>x\<in>set (L ! c'). x < length ?pcd \<and> cell (?pcd ! x) = int c'"
      by (simp_all add: dll_def)
    have same: "?nx2 y = ?nx y \<and> ?pv2 y = ?pv y \<and> cell (?pcd2 ! y) = cell (?pcd ! y)"
      if y: "y \<in> set (L ! c')" for y
    proof -
      from y M' have yl: "y < length ?pcd" and yc: "cell (?pcd ! y) = int c'" by simp_all
      from y free c'l have "y \<noteq> ID" by auto
      moreover have "?xs \<noteq> [] \<longrightarrow> y \<noteq> hd ?xs"
        using M yc False by (auto simp: hd_in_set)
      ultimately show ?thesis using nx2 [OF yl] pv2 [OF yl] ce2 [OF yl] by auto
    qed
    have 1: "fwd ?nx2 (list (cells st ! c')) (L ! c')"
      by (rule fwd_cong [OF F']) (simp add: same)
    have 2: "bwd ?pv2 (- 1) (L ! c')"
      by (rule bwd_cong [OF B']) (simp add: same)
    have 4: "\<forall>x\<in>set (L ! c'). x < length ?pcd2 \<and> cell (?pcd2 ! x) = int c'"
      using M' same lp by simp
    have "list (cells st2 ! c') = list (cells st ! c')"
      using li2 [of c'] c'l len False by simp
    with 1 2 D' 4 False show ?thesis by (simp add: dll_def)
  qed
  then have "chains st2 (L[c := ID # ?xs])"
    using len lc by (simp add: chains_def)
  moreover have "cell (?pcd2 ! ID) = int c" using ce2 [OF ID] by simp
  moreover have "\<forall>y<length ?pcd. y \<noteq> ID \<longrightarrow> cell (?pcd2 ! y) = cell (?pcd ! y)"
    using ce2 by simp
  moreover have "\<forall>y<length ?pcd. y \<noteq> ID \<and> int y \<noteq> ?h \<longrightarrow> ?pcd2 ! y = ?pcd ! y"
  proof (intro allI impI)
    fix y assume yl: "y < length ?pcd" and y: "y \<noteq> ID \<and> int y \<noteq> ?h"
    from y h have "?xs \<noteq> [] \<longrightarrow> y \<noteq> hd ?xs" by auto
    then have "next (?pcd2 ! y) = next (?pcd ! y)" "prev (?pcd2 ! y) = prev (?pcd ! y)"
      "cell (?pcd2 ! y) = cell (?pcd ! y)"
      using nx2 [OF yl] pv2 [OF yl] ce2 [OF yl] y by auto
    then show "?pcd2 ! y = ?pcd ! y" by simp
  qed
  ultimately show ?thesis using run lp lc by blast
qed


lemma chains_one_cell:
  assumes "chains st L" and "c < length L" and "c' < length L"
    and "i \<in> set (L ! c)" and "i \<in> set (L ! c')"
  shows "c = c'"
proof -
  from assms(1,2,4) have "cell (partCellData st ! i) = int c"
    by (simp add: chains_def dll_def)
  moreover from assms(1,3,5) have "cell (partCellData st ! i) = int c'"
    by (simp add: chains_def dll_def)
  ultimately show ?thesis by simp
qed

lemma wf_cells_one_cell:
  assumes "wf_cells st L" and "i < length (partCellData st)"
  shows "\<exists>!c. c < length L \<and> i \<in> set (L ! c)"
proof -
  from assms obtain c where "c < length L" "i \<in> set (L ! c)"
    by (auto simp: wf_cells_def)
  moreover from assms(1) have "chains st L" by (simp add: wf_cells_def)
  ultimately show ?thesis by (blast intro: chains_one_cell)
qed

text \<open>
  Claim C3. Take a cell list in which every cell's chain is a well-formed doubly-linked
  chain over \<open>partCellData\<close> (the head's \<open>prev\<close> is \<open>-1\<close>, the \<open>prev\<close> and \<open>next\<close> links agree,
  the chain ends and repeats no particle) and every particle is in exactly one cell; let
  \<open>L\<close> be its chains. Then \<open>removeFromCell(ID)\<close> followed by \<open>addToCell(ID, c)\<close> runs without
  an index out of range and leaves a well-formed cell list, in which particle \<open>ID\<close> is at
  the head of the chain of cell \<open>c\<close> and records the cell \<open>c\<close>. Every other particle keeps
  its cell and its place in its chain: the chains are those of \<open>L\<close> with \<open>ID\<close> taken out, in
  the same order. The entry of every other particle is untouched, links included, except
  for the two former neighbours of \<open>ID\<close> and the former head of cell \<open>c\<close>, whose links are
  the ones that take \<open>ID\<close> out and in. This holds with and without \<open>DYNAMO_DEBUG\<close>.
\<close>

theorem move_keeps_cells_well_formed:
  assumes wf: "wf_cells st L" and ID: "ID < length (partCellData st)"
    and c: "c < length (cells st)"
  shows "\<exists>st1 st2. removeFromCell debug (int ID) st = Some st1
    \<and> addToCell (int ID) (int c) st1 = Some st2
    \<and> wf_cells st2 ((map (removeAll ID) L)[c := ID # removeAll ID (L ! c)])
    \<and> cell (partCellData st2 ! ID) = int c
    \<and> (\<forall>j<length (partCellData st). j \<noteq> ID \<longrightarrow>
          cell (partCellData st2 ! j) = cell (partCellData st ! j))
    \<and> (\<forall>j<length (partCellData st). j \<noteq> ID \<and> int j \<noteq> prev (partCellData st ! ID)
            \<and> int j \<noteq> next (partCellData st ! ID) \<and> int j \<noteq> list (cells st ! c) \<longrightarrow>
          partCellData st2 ! j = partCellData st ! j)
    \<and> length (partCellData st2) = length (partCellData st)
    \<and> length (cells st2) = length (cells st)"
proof -
  from wf have ch: "chains st L"
    and cover: "\<And>i. i < length (partCellData st) \<Longrightarrow> \<exists>c<length L. i \<in> set (L ! c)"
    by (simp_all add: wf_cells_def)
  from ch have len: "length L = length (cells st)" by (simp add: chains_def)
  from cover [OF ID] obtain c0 where c0: "c0 < length L" and mem: "ID \<in> set (L ! c0)"
    by blast
  from mem obtain as bs where split: "L ! c0 = as @ ID # bs"
    by (auto simp: in_set_conv_decomp)
  from ch c0 have "distinct (L ! c0)" by (simp add: chains_def dll_def)
  with split have nas: "ID \<notin> set as" and nbs: "ID \<notin> set bs" by simp_all
  let ?L1 = "L[c0 := as @ bs]"
  have L1: "map (removeAll ID) L = ?L1"
  proof (rule nth_equalityI)
    show "length (map (removeAll ID) L) = length ?L1" by simp
  next
    fix i assume "i < length (map (removeAll ID) L)"
    then have i: "i < length L" by simp
    show "map (removeAll ID) L ! i = ?L1 ! i"
    proof (cases "i = c0")
      case True
      with i split nas nbs show ?thesis by simp
    next
      case False
      with chains_one_cell [OF ch i c0 _ mem] have "ID \<notin> set (L ! i)" by blast
      with i False show ?thesis by simp
    qed
  qed
  from remove_chains [OF ch c0 split, of debug]
  obtain st1 where run1: "removeFromCell debug (int ID) st = Some st1"
    and ch1: "chains st1 ?L1"
    and lp1: "length (partCellData st1) = length (partCellData st)"
    and lc1: "length (cells st1) = length (cells st)"
    and ce1: "\<And>y. y < length (partCellData st) \<Longrightarrow> y \<noteq> ID \<Longrightarrow>
          cell (partCellData st1 ! y) = cell (partCellData st ! y)"
    and fr1: "\<And>y. y < length (partCellData st) \<Longrightarrow> y \<noteq> ID \<and> int y \<noteq> prev (partCellData st ! ID)
            \<and> int y \<noteq> next (partCellData st ! ID) \<Longrightarrow>
          partCellData st1 ! y = partCellData st ! y"
    and hd1: "\<And>c. c < length (cells st) \<Longrightarrow> list (cells st1 ! c) = list (cells st ! c)
          \<or> list (cells st1 ! c) = next (partCellData st ! ID)"
    by blast
  have free: "\<forall>c'<length ?L1. ID \<notin> set (?L1 ! c')"
    unfolding L1 [symmetric] by simp
  have c1: "c < length ?L1" using c len by simp
  have ID1: "ID < length (partCellData st1)" using ID lp1 by simp
  from add_chains [OF ch1 c1 ID1 free]
  obtain st2 where run2: "addToCell (int ID) (int c) st1 = Some st2"
    and ch2: "chains st2 (?L1[c := ID # ?L1 ! c])"
    and lp2: "length (partCellData st2) = length (partCellData st1)"
    and lc2: "length (cells st2) = length (cells st1)"
    and ceID: "cell (partCellData st2 ! ID) = int c"
    and ce2: "\<And>y. y < length (partCellData st1) \<Longrightarrow> y \<noteq> ID \<Longrightarrow>
          cell (partCellData st2 ! y) = cell (partCellData st1 ! y)"
    and fr2: "\<And>y. y < length (partCellData st1) \<Longrightarrow> y \<noteq> ID \<and> int y \<noteq> list (cells st1 ! c) \<Longrightarrow>
          partCellData st2 ! y = partCellData st1 ! y"
    by blast
  let ?L2 = "(map (removeAll ID) L)[c := ID # removeAll ID (L ! c)]"
  have L2: "?L1[c := ID # ?L1 ! c] = ?L2"
    using c len by (simp add: L1 [symmetric])
  have "\<exists>c'<length ?L2. i \<in> set (?L2 ! c')" if i: "i < length (partCellData st2)" for i
  proof (cases "i = ID")
    case True
    with c len show ?thesis by (intro exI [of _ c]) simp
  next
    case False
    from i lp1 lp2 have "i < length (partCellData st)" by simp
    from cover [OF this] obtain ci where ci: "ci < length L" "i \<in> set (L ! ci)" by blast
    with False have "i \<in> set (?L2 ! ci)"
      by (cases "ci = c") (simp_all add: nth_list_update)
    with ci show ?thesis by (intro exI [of _ ci]) simp
  qed
  with ch2 have "wf_cells st2 ?L2" by (simp add: wf_cells_def L2)
  moreover have "\<forall>j<length (partCellData st). j \<noteq> ID \<longrightarrow>
      cell (partCellData st2 ! j) = cell (partCellData st ! j)"
    using ce1 ce2 lp1 by simp
  moreover have "\<forall>j<length (partCellData st). j \<noteq> ID \<and> int j \<noteq> prev (partCellData st ! ID)
      \<and> int j \<noteq> next (partCellData st ! ID) \<and> int j \<noteq> list (cells st ! c) \<longrightarrow>
      partCellData st2 ! j = partCellData st ! j"
  proof (intro allI impI)
    fix j assume jl: "j < length (partCellData st)"
      and j: "j \<noteq> ID \<and> int j \<noteq> prev (partCellData st ! ID)
        \<and> int j \<noteq> next (partCellData st ! ID) \<and> int j \<noteq> list (cells st ! c)"
    from j hd1 [OF c] have "int j \<noteq> list (cells st1 ! c)" by auto
    with j jl lp1 have "partCellData st2 ! j = partCellData st1 ! j" by (intro fr2) simp_all
    also from j have "\<dots> = partCellData st ! j" by (intro fr1 [OF jl]) simp
    finally show "partCellData st2 ! j = partCellData st ! j" .
  qed
  ultimately show ?thesis using run1 run2 ceID lp1 lp2 lc1 lc2 by auto
qed

lemma cellsEx_wf: "wf_cells cellsEx [[2, 0], [1]]"
  by (simp add: wf_cells_def chains_def dll_def cellsEx_def All_less_Suc Ex_less_Suc)

theorem move_keeps_cells_well_formed_witness:
  "\<exists>st1 st2. removeFromCell False 0 cellsEx = Some st1 \<and> addToCell 0 1 st1 = Some st2
     \<and> wf_cells st2 [[2], [0, 1]]
     \<and> map cell (partCellData st2) = [1, 1, 0]"
proof -
  have "(0::nat) < length (partCellData cellsEx)" "(1::nat) < length (cells cellsEx)"
    by (simp_all add: cellsEx_def)
  from move_keeps_cells_well_formed [OF cellsEx_wf this, of False]
  obtain st1 st2 where run: "removeFromCell False 0 cellsEx = Some st1" "addToCell 0 1 st1 = Some st2"
    and wf: "wf_cells st2 [[2], [0, 1]]"
    and ce: "cell (partCellData st2 ! 0) = 1"
      "\<forall>j<length (partCellData cellsEx). j \<noteq> 0 \<longrightarrow>
          cell (partCellData st2 ! j) = cell (partCellData cellsEx ! j)"
    and len: "length (partCellData st2) = length (partCellData cellsEx)"
    by auto
  from len obtain e0 e1 e2 where es: "partCellData st2 = [e0, e1, e2]"
    by (auto simp: cellsEx_def length_Suc_conv numeral_3_eq_3)
  from ce(2) have "cell (partCellData st2 ! 1) = 1" "cell (partCellData st2 ! 2) = 0"
    by (simp_all add: cellsEx_def)
  with ce(1) es have "map cell (partCellData st2) = [1, 1, 0]" by simp
  with run wf show ?thesis by (intro exI [of _ st1] exI [of _ st2]) simp
qed

end
